theory Spec2Isabelle
  imports Complex_Main "HOL-Library.AList"
begin

section \<open>The authentication hook \<open>useQuickAuth\<close> (src/roy/hooks/useQuickAuth.ts)\<close>

text \<open>
  The hook keeps one piece of React state (\<open>AuthState\<close>) and talks to four outside
  parties: the miniapp SDK (\<open>sdk.ethereum.request\<close>, \<open>sdk.actions.signIn\<close>), the
  wallet connector (\<open>useAccount\<close>, \<open>useAppKit\<close>, \<open>useDisconnect\<close>,
  \<open>useSignMessage\<close>), the backend (\<open>fetch\<close>) and the clock. The model is a
  state-passing one: \<open>signIn\<close> and \<open>signOut\<close> take the hook's state and return
  the new one; every answer of an outside party is a field of a record \<open>world\<close>, so that
  a theorem about every \<open>world\<close> is a theorem about every behaviour of the outside; every
  exception is a value \<open>Inl e\<close>; every call to the outside and every state update is also
  appended to a trace, in the order in which the source performs them.
\<close>

subsection \<open>JavaScript values\<close>

text \<open>
  The response body \<open>data\<close> is whatever \<open>response.json()\<close> yields, and the source
  stores parts of it in the state unchanged, so the state holds JavaScript values. An object
  is the list of its own properties; the keys of an object are distinct, and the source only
  looks properties up, so the order of the list carries no meaning.
  Numbers are never computed with, only tested for zero and stored.
\<close>

datatype jsval =
    JUndefined
  | JNull
  | JBool bool
  | JNum real
  | JStr string
  | JArr "jsval list"
  | JObj "(string \<times> jsval) list"

text \<open>What \<open>!!v\<close>, \<open>v || x\<close> and \<open>if (v)\<close> test.\<close>

fun truthy :: "jsval \<Rightarrow> bool" where
  "truthy JUndefined = False"
| "truthy JNull = False"
| "truthy (JBool b) = b"
| "truthy (JNum n) = (n \<noteq> 0)"
| "truthy (JStr s) = (s \<noteq> [])"
| "truthy (JArr xs) = True"
| "truthy (JObj ps) = True"

text \<open>Thrown values: the two kinds the source itself raises, and anything an outside call rejects with.\<close>

datatype exn =
    Error string
  | TypeError
  | Thrown jsval

text \<open>The decimal numeral of an array index, as a property key.\<close>

fun string_of_nat :: "nat \<Rightarrow> string" where
  "string_of_nat n =
     (if n < 10 then [char_of (48 + n)]
      else string_of_nat (n div 10) @ [char_of (48 + n mod 10)])"

declare string_of_nat.simps [simp del]

text \<open>
  The own enumerable properties of a value, which is what the spread \<open>...data\<close> copies:
  those of an object, the indexed elements of an array, the indexed characters of a string,
  and none for the other primitives, \<open>null\<close> and \<open>undefined\<close>.
\<close>

fun own_props :: "jsval \<Rightarrow> (string \<times> jsval) list" where
  "own_props (JObj ps) = ps"
| "own_props (JArr xs) = zip (map string_of_nat [0..<length xs]) xs"
| "own_props (JStr cs) = zip (map string_of_nat [0..<length cs]) (map (\<lambda>c. JStr [c]) cs)"
| "own_props v = []"

text \<open>
  \<open>data.k\<close> for the three names the source reads (\<open>fid\<close>, \<open>address\<close>, \<open>token\<close>),
  none of which is an index, \<open>length\<close> or a member of a built-in prototype: the own
  property when there is one, \<open>undefined\<close> otherwise, and a \<open>TypeError\<close> on
  \<open>null\<close> and \<open>undefined\<close>.
\<close>

definition lookup_prop :: "jsval \<Rightarrow> string \<Rightarrow> jsval" where
  "lookup_prop v k = (case map_of (own_props v) k of None \<Rightarrow> JUndefined | Some x \<Rightarrow> x)"

fun get_prop :: "jsval \<Rightarrow> string \<Rightarrow> exn + jsval" where
  "get_prop JUndefined k = Inl TypeError"
| "get_prop JNull k = Inl TypeError"
| "get_prop v k = Inr (lookup_prop v k)"

text \<open>
  The object literal \<open>{ ...base, ...data }\<close>: each own property of \<open>data\<close> in turn is
  written over the properties so far, replacing an existing key in place and appending a new one.
\<close>

definition spread :: "(string \<times> jsval) list \<Rightarrow> jsval \<Rightarrow> (string \<times> jsval) list" where
  "spread base v = fold (\<lambda>(k, x). AList.update k x) (own_props v) base"

subsection \<open>The state of the hook\<close>

record authState =
  token :: jsval
  userData :: jsval
  isLoading :: bool

text \<open>The argument of \<open>useState\<close> (lines 37-41).\<close>

definition initialAuthState :: authState where
  "initialAuthState = \<lparr>token = JNull, userData = JNull, isLoading = False\<rparr>"

text \<open>What the hook does, in order.\<close>

datatype event =
    SetAuthState authState
  | EthRequestAccounts
  | ConsoleWarn string exn
  | ConsoleError string exn
  | SdkSignIn string
  | Fetch string jsval
  | ReadAddressRef
  | AppKitOpen
  | Sleep nat
  | SignMessage string
  | Disconnect

record sys =
  authState :: authState
  trace :: "event list"

text \<open>\<open>setAuthState\<close> with an updater function; a plain new state is the constant updater.\<close>

definition setAuthState :: "(authState \<Rightarrow> authState) \<Rightarrow> sys \<Rightarrow> sys" where
  "setAuthState f s =
     (let st = f (authState s) in s\<lparr>authState := st, trace := trace s @ [SetAuthState st]\<rparr>)"

definition emit :: "event \<Rightarrow> sys \<Rightarrow> sys" where
  "emit e s = s\<lparr>trace := trace s @ [e]\<rparr>"

subsection \<open>The outside\<close>

record response =
  ok :: bool
  json :: "exn + jsval"

text \<open>
  The values the hook captures at render time (\<open>isMiniapp\<close>, \<open>isConnected\<close>, whether
  \<open>appKit?.open\<close> is there) and the answer of each outside call of one invocation.
  \<open>addressRef w k\<close> is \<open>addressRef.current\<close> at its \<open>k\<close>-th read: read \<open>0\<close> is
  line 120, read \<open>k \<ge> 1\<close> is the one after the \<open>k\<close>-th wait of the polling loop.
  \<open>appKit.open()\<close> and \<open>disconnect()\<close> are not awaited: they are requests, recorded in
  the trace.
\<close>

record world =
  isMiniapp :: bool
  isConnected :: bool
  appKit_open :: bool
  addressRef :: "nat \<Rightarrow> string option"
  eth_requestAccounts :: "exn + string list option"
  generateNonce :: string
  sdk_signIn :: "string \<Rightarrow> exn + string \<times> string"
  env_BACKEND_ORIGIN :: "string option"
  window_origin :: string
  fetch_miniapp :: "string \<Rightarrow> jsval \<Rightarrow> exn + response"
  now_iso :: string
  signMessageAsync :: "string \<Rightarrow> exn + string"
  fetch_appkit :: "string \<Rightarrow> jsval \<Rightarrow> exn + response"

text \<open>\<open>process.env.NEXT_PUBLIC_BACKEND_ORIGIN || window.location.origin\<close> (lines 84, 154).\<close>

definition backendOrigin :: "world \<Rightarrow> string" where
  "backendOrigin w =
     (case env_BACKEND_ORIGIN w of
        None \<Rightarrow> window_origin w
      | Some origin \<Rightarrow> if origin \<noteq> [] then origin else window_origin w)"

definition auth_url :: "world \<Rightarrow> string" where
  "auth_url w = backendOrigin w @ ''/api/auth''"

text \<open>\<open>addressRef.current\<close> as a value: a string or \<open>undefined\<close>.\<close>

definition latest_address :: "world \<Rightarrow> nat \<Rightarrow> jsval" where
  "latest_address w k = (case addressRef w k of None \<Rightarrow> JUndefined | Some a \<Rightarrow> JStr a)"

subsection \<open>\<open>signIn\<close>: the miniapp path (lines 62-117)\<close>

text \<open>Lines 68-70: \<open>accounts[0]\<close> when \<open>accounts && accounts.length > 0\<close>, else still \<open>null\<close>.\<close>

fun first_account :: "string list option \<Rightarrow> jsval" where
  "first_account (Some (a # as)) = JStr a"
| "first_account accounts = JNull"

text \<open>The value of \<open>walletAddress\<close> after lines 65-74, from the answer to the account request.\<close>

definition walletAddress_of :: "exn + string list option \<Rightarrow> jsval" where
  "walletAddress_of r = (case r of Inl walletError \<Rightarrow> JNull | Inr accounts \<Rightarrow> first_account accounts)"

text \<open>Lines 65-74: the account request; its failure is logged and leaves \<open>walletAddress\<close> \<open>null\<close>.\<close>

definition request_wallet :: "world \<Rightarrow> sys \<Rightarrow> sys \<times> jsval" where
  "request_wallet w s =
     (let s1 = emit EthRequestAccounts s in
      case eth_requestAccounts w of
        Inl walletError \<Rightarrow> (emit (ConsoleWarn ''Wallet connection failed:'' walletError) s1, JNull)
      | Inr accounts \<Rightarrow> (s1, first_account accounts))"

definition miniapp_body :: "string \<Rightarrow> string \<Rightarrow> jsval \<Rightarrow> jsval" where
  "miniapp_body message signature walletAddress =
     JObj [(''message'', JStr message), (''signature'', JStr signature), (''address'', walletAddress)]"

text \<open>Lines 103-110: the state the miniapp path stores; \<open>data.fid\<close> is read first.\<close>

definition miniapp_state :: "string \<Rightarrow> jsval \<Rightarrow> jsval \<Rightarrow> exn + authState" where
  "miniapp_state signature walletAddress data =
     (case get_prop data ''fid'' of
        Inl e \<Rightarrow> Inl e
      | Inr fid \<Rightarrow>
          (case (if truthy walletAddress then Inr walletAddress else get_prop data ''address'') of
             Inl e \<Rightarrow> Inl e
           | Inr addr \<Rightarrow>
               Inr \<lparr>token = JStr signature,
                    userData = JObj [(''fid'', fid), (''address'', addr)],
                    isLoading = False\<rparr>))"

text \<open>The body of the inner \<open>try\<close> (lines 63-111): \<open>Inr ()\<close> is the early \<open>return\<close>.\<close>

definition miniapp_auth :: "world \<Rightarrow> sys \<Rightarrow> sys \<times> (exn + unit)" where
  "miniapp_auth w s =
     (let (s1, walletAddress) = request_wallet w s;
          nonce = generateNonce w;
          s2 = emit (SdkSignIn nonce) s1 in
      case sdk_signIn w nonce of
        Inl e \<Rightarrow> (s2, Inl e)
      | Inr (message, signature) \<Rightarrow>
          (let body = miniapp_body message signature walletAddress;
               s3 = emit (Fetch (auth_url w) body) s2 in
           case fetch_miniapp w (auth_url w) body of
             Inl e \<Rightarrow> (s3, Inl e)
           | Inr response \<Rightarrow>
               if \<not> ok response then (s3, Inl (Error ''Authentication failed''))
               else (case json response of
                       Inl e \<Rightarrow> (s3, Inl e)
                     | Inr data \<Rightarrow>
                         (case miniapp_state signature walletAddress data of
                            Inl e \<Rightarrow> (s3, Inl e)
                          | Inr st \<Rightarrow> (setAuthState (\<lambda>prev. st) s3, Inr ())))))"

subsection \<open>\<open>signIn\<close>: the AppKit path (lines 119-178)\<close>

text \<open>The polling loop (lines 132-137).\<close>

function poll :: "world \<Rightarrow> sys \<Rightarrow> jsval \<Rightarrow> nat \<Rightarrow> sys \<times> jsval" where
  "poll w s currentAddress attempts =
     (if \<not> truthy currentAddress \<and> attempts < 100
      then poll w (emit ReadAddressRef (emit (Sleep 100) s))
             (latest_address w (attempts + 1)) (attempts + 1)
      else (s, currentAddress))"
  by pat_completeness auto
termination
  by (relation "measure (\<lambda>(w, s, currentAddress, attempts). 100 - attempts)") auto

declare poll.simps [simp del]

definition not_available :: string where
  "not_available = ''Wallet connection not available. Please set NEXT_PUBLIC_PROJECT_ID or use the app in a Farcaster miniapp.''"

definition connection_failed :: string where
  "connection_failed = ''Wallet connection failed. Please connect your wallet and try again.''"

text \<open>Lines 120-147: the address to sign in with, or the error thrown on the way.\<close>

definition connect_wallet :: "world \<Rightarrow> sys \<Rightarrow> sys \<times> (exn + jsval)" where
  "connect_wallet w s =
     (let s0 = emit ReadAddressRef s;
          currentAddress = latest_address w 0;
          (s1, r) =
            (if \<not> isConnected w \<or> \<not> truthy currentAddress then
               (if appKit_open w then
                  (let (s2, polled) = poll w (emit AppKitOpen s0) currentAddress 0 in
                   if \<not> truthy polled then (s2, Inl (Error connection_failed))
                   else (s2, Inr polled))
                else (s0, Inl (Error not_available)))
             else (s0, Inr currentAddress)) in
      case r of
        Inl e \<Rightarrow> (s1, Inl e)
      | Inr address \<Rightarrow>
          if \<not> truthy address then (s1, Inl (Error ''Wallet address not available''))
          else (s1, Inr address))"

definition appkit_body :: "jsval \<Rightarrow> string \<Rightarrow> string \<Rightarrow> jsval" where
  "appkit_body currentAddress message signature =
     JObj [(''address'', currentAddress), (''message'', JStr message), (''signature'', JStr signature)]"

definition sign_in_message :: "world \<Rightarrow> string" where
  "sign_in_message w = ''Sign in to this app at '' @ now_iso w"

text \<open>Lines 171-178: the state the AppKit path stores.\<close>

definition appkit_state :: "string \<Rightarrow> jsval \<Rightarrow> jsval \<Rightarrow> exn + authState" where
  "appkit_state signature currentAddress data =
     (case get_prop data ''token'' of
        Inl e \<Rightarrow> Inl e
      | Inr t \<Rightarrow>
          Inr \<lparr>token = (if truthy t then t else JStr signature),
               userData = JObj (spread [(''address'', currentAddress)] data),
               isLoading = False\<rparr>)"

definition appkit_auth :: "world \<Rightarrow> sys \<Rightarrow> sys \<times> (exn + unit)" where
  "appkit_auth w s =
     (case connect_wallet w s of
        (s1, Inl e) \<Rightarrow> (s1, Inl e)
      | (s1, Inr currentAddress) \<Rightarrow>
          (let message = sign_in_message w;
               s2 = emit (SignMessage message) s1 in
           case signMessageAsync w message of
             Inl e \<Rightarrow> (s2, Inl e)
           | Inr signature \<Rightarrow>
               (let body = appkit_body currentAddress message signature;
                    s3 = emit (Fetch (auth_url w) body) s2 in
                case fetch_appkit w (auth_url w) body of
                  Inl e \<Rightarrow> (s3, Inl e)
                | Inr response \<Rightarrow>
                    if \<not> ok response then (s3, Inl (Error ''Authentication failed''))
                    else (case json response of
                            Inl e \<Rightarrow> (s3, Inl e)
                          | Inr data \<Rightarrow>
                              (case appkit_state signature currentAddress data of
                                 Inl e \<Rightarrow> (s3, Inl e)
                               | Inr st \<Rightarrow> (setAuthState (\<lambda>prev. st) s3, Inr ()))))))"

subsection \<open>\<open>signIn\<close> (lines 57-184), \<open>signOut\<close> and the exported flag\<close>

text \<open>The body of the outer \<open>try\<close> after line 59: the miniapp path, and the AppKit path when
  the environment is not a miniapp or the miniapp path threw.\<close>

definition signIn_body :: "world \<Rightarrow> sys \<Rightarrow> sys \<times> (exn + unit)" where
  "signIn_body w s =
     (if isMiniapp w then
        (case miniapp_auth w s of
           (s1, Inr u) \<Rightarrow> (s1, Inr u)
         | (s1, Inl miniappError) \<Rightarrow>
             appkit_auth w
               (emit (ConsoleWarn ''Miniapp authentication failed, falling back to AppKit:'' miniappError) s1))
      else appkit_auth w s)"

text \<open>The outer \<open>catch\<close> (lines 179-183): log, reset the loading flag, rethrow.\<close>

definition signIn_catch :: "sys \<times> (exn + unit) \<Rightarrow> sys \<times> (exn + unit)" where
  "signIn_catch r =
     (case r of
        (s1, Inr u) \<Rightarrow> (s1, Inr u)
      | (s1, Inl error) \<Rightarrow>
          (setAuthState (\<lambda>prev. prev\<lparr>isLoading := False\<rparr>)
             (emit (ConsoleError ''Authentication failed:'' error) s1),
           Inl error))"

definition signIn :: "world \<Rightarrow> sys \<Rightarrow> sys \<times> (exn + unit)" where
  "signIn w s = signIn_catch (signIn_body w (setAuthState (\<lambda>prev. prev\<lparr>isLoading := True\<rparr>) s))"

text \<open>Lines 198-207.\<close>

definition signOut :: "world \<Rightarrow> sys \<Rightarrow> sys" where
  "signOut w s =
     setAuthState (\<lambda>prev. \<lparr>token = JNull, userData = JNull, isLoading = False\<rparr>)
       (if \<not> isMiniapp w \<and> isConnected w then emit Disconnect s else s)"

text \<open>Line 213.\<close>

definition isAuthenticated :: "world \<Rightarrow> authState \<Rightarrow> bool" where
  "isAuthenticated w st =
     (if isMiniapp w then truthy (token st) else (isConnected w \<and> truthy (token st)))"

subsection \<open>Reading the trace\<close>

text \<open>The events that only the AppKit path produces. That path starts by reading
  \<open>addressRef.current\<close> (line 120), so a run without any of them has not entered it.\<close>

fun appkit_event :: "event \<Rightarrow> bool" where
  "appkit_event ReadAddressRef = True"
| "appkit_event AppKitOpen = True"
| "appkit_event (Sleep ms) = True"
| "appkit_event (SignMessage m) = True"
| "appkit_event e = False"

text \<open>The waits of a trace, in milliseconds.\<close>

fun waits :: "event list \<Rightarrow> nat list" where
  "waits [] = []"
| "waits (Sleep ms # es) = ms # waits es"
| "waits (e # es) = waits es"

text \<open>The state updates of a trace: the states \<open>setAuthState\<close> produced, in order.\<close>

fun updates :: "event list \<Rightarrow> authState list" where
  "updates [] = []"
| "updates (SetAuthState st # es) = st # updates es"
| "updates (e # es) = updates es"

text \<open>\<open>j\<close> rounds of the polling loop: wait 100 ms, read the address again.\<close>

definition rounds :: "nat \<Rightarrow> event list" where
  "rounds j = concat (replicate j [Sleep 100, ReadAddressRef])"

text \<open>What was done between an earlier state and a later one.\<close>

definition performed :: "sys \<Rightarrow> sys \<Rightarrow> event list" where
  "performed s s' = drop (length (trace s)) (trace s')"

text \<open>The state after line 59, and the warning of the inner \<open>catch\<close> (line 114).\<close>

definition loading :: "sys \<Rightarrow> sys" where
  "loading s = setAuthState (\<lambda>prev. prev\<lparr>isLoading := True\<rparr>) s"

definition fallback :: "exn \<Rightarrow> event" where
  "fallback e = ConsoleWarn ''Miniapp authentication failed, falling back to AppKit:'' e"

subsection \<open>Concrete worlds\<close>

text \<open>A world in which nothing outside answers: no miniapp host, no wallet, no connector UI,
  no network.\<close>

definition world_offline :: world where
  "world_offline =
     \<lparr>isMiniapp = False, isConnected = False, appKit_open = False,
      addressRef = (\<lambda>k. None),
      eth_requestAccounts = Inl (Thrown (JStr ''no provider'')),
      generateNonce = ''k3x9'',
      sdk_signIn = (\<lambda>nonce. Inl (Thrown (JStr ''rejected''))),
      env_BACKEND_ORIGIN = None,
      window_origin = ''https://app.example'',
      fetch_miniapp = (\<lambda>url body. Inl (Thrown (JStr ''network''))),
      now_iso = ''2025-01-01T00:00:00.000Z'',
      signMessageAsync = (\<lambda>message. Inl (Thrown (JStr ''user rejected''))),
      fetch_appkit = (\<lambda>url body. Inl (Thrown (JStr ''network'')))\<rparr>"

definition ok_response :: "jsval \<Rightarrow> response" where
  "ok_response data = \<lparr>ok = True, json = Inr data\<rparr>"

text \<open>The hook before any sign-in, and the hook holding a session.\<close>

definition sys_initial :: sys where
  "sys_initial = \<lparr>authState = initialAuthState, trace = []\<rparr>"

definition sys_signed_in :: sys where
  "sys_signed_in =
     \<lparr>authState = \<lparr>token = JStr ''sig0'', userData = JObj [(''fid'', JNum 7)], isLoading = False\<rparr>,
      trace = []\<rparr>"

text \<open>The scenarios of the specification.\<close>

definition world_embedded :: world where
  "world_embedded = world_offline
     \<lparr>isMiniapp := True,
      eth_requestAccounts := Inr (Some [''0xAAA'']),
      sdk_signIn := (\<lambda>nonce. Inr (''m'', ''sig1'')),
      fetch_miniapp := (\<lambda>url body. Inr (ok_response (JObj [(''fid'', JNum 42)])))\<rparr>"

definition world_fallback :: world where
  "world_fallback = world_offline
     \<lparr>isMiniapp := True, isConnected := True,
      addressRef := (\<lambda>k. Some ''0xBBB''),
      signMessageAsync := (\<lambda>message. Inr ''sig2''),
      fetch_appkit := (\<lambda>url body. Inr (ok_response (JObj [])))\<rparr>"

definition world_embedded_no_wallet :: world where
  "world_embedded_no_wallet = world_offline
     \<lparr>isMiniapp := True,
      sdk_signIn := (\<lambda>nonce. Inr (''m'', ''sig4'')),
      fetch_miniapp := (\<lambda>url body.
        Inr (ok_response (JObj [(''fid'', JNum 9), (''address'', JStr ''0xEEE'')])))\<rparr>"

definition world_embedded_unconfigured :: world where
  "world_embedded_unconfigured = world_offline\<lparr>isMiniapp := True\<rparr>"

text \<open>A browser whose connector UI opens: the wallet never connects, or connects by the third poll.\<close>

definition world_never_connects :: world where
  "world_never_connects = world_offline\<lparr>appKit_open := True\<rparr>"

definition world_connects_late :: world where
  "world_connects_late = world_offline
     \<lparr>appKit_open := True,
      addressRef := (\<lambda>k. if k < 3 then None else Some ''0xCCC'')\<rparr>"

text \<open>A connected browser wallet, and a backend that answers with a token and an address of its own.\<close>

definition world_backend_identity :: world where
  "world_backend_identity = world_offline
     \<lparr>isConnected := True,
      addressRef := (\<lambda>k. Some ''0xBBB''),
      signMessageAsync := (\<lambda>message. Inr ''sig3''),
      fetch_appkit := (\<lambda>url body. Inr (ok_response (JObj [(''token'', JStr ''jwt1''), (''address'', JStr ''0xDDD'')])))\<rparr>"

section \<open>Basic facts\<close>

subsection \<open>State and trace\<close>

lemma authState_emit [simp]: "authState (emit e s) = authState s"
  by (simp add: emit_def)

lemma trace_emit [simp]: "trace (emit e s) = trace s @ [e]"
  by (simp add: emit_def)

lemma authState_setAuthState [simp]: "authState (setAuthState f s) = f (authState s)"
  by (simp add: setAuthState_def Let_def)

lemma trace_setAuthState [simp]:
  "trace (setAuthState f s) = trace s @ [SetAuthState (f (authState s))]"
  by (simp add: setAuthState_def Let_def)

lemma waits_append [simp]: "waits (xs @ ys) = waits xs @ waits ys"
  by (induction xs rule: waits.induct) simp_all

lemma updates_append [simp]: "updates (xs @ ys) = updates xs @ updates ys"
  by (induction xs rule: updates.induct) simp_all

subsection \<open>The polling loop\<close>

lemma rounds_Suc: "rounds (Suc j) = Sleep 100 # ReadAddressRef # rounds j"
  by (simp add: rounds_def)

lemma rounds_0 [simp]: "rounds 0 = []"
  by (simp add: rounds_def)

lemma waits_rounds [simp]: "waits (rounds j) = replicate j 100"
  by (induction j) (simp_all add: rounds_Suc)

lemma updates_rounds [simp]: "updates (rounds j) = []"
  by (induction j) (simp_all add: rounds_Suc)

lemma poll_stop: "truthy c \<or> \<not> n < 100 \<Longrightarrow> poll w s c n = (s, c)"
  by (subst poll.simps) auto

lemma poll_step:
  "\<not> truthy c \<Longrightarrow> n < 100 \<Longrightarrow>
   poll w s c n = poll w (emit ReadAddressRef (emit (Sleep 100) s)) (latest_address w (Suc n)) (Suc n)"
  by (subst poll.simps) simp

lemma poll_trace:
  "\<exists>j. j \<le> 100 - n \<and> trace (fst (poll w s c n)) = trace s @ rounds j"
proof (induction w s c n rule: poll.induct)
  case (1 w s c n)
  show ?case
  proof (cases "\<not> truthy c \<and> n < 100")
    case True
    from 1 [OF True] obtain j where j: "j \<le> 100 - (n + 1)"
      and tr: "trace (fst (poll w (emit ReadAddressRef (emit (Sleep 100) s)) (latest_address w (n + 1)) (n + 1)))
               = trace (emit ReadAddressRef (emit (Sleep 100) s)) @ rounds j"
      by blast
    from True have "poll w s c n = poll w (emit ReadAddressRef (emit (Sleep 100) s)) (latest_address w (n + 1)) (n + 1)"
      by (simp add: poll_step)
    with tr have "trace (fst (poll w s c n)) = trace s @ rounds (Suc j)"
      by (simp add: rounds_Suc)
    moreover from j True have "Suc j \<le> 100 - n" by arith
    ultimately show ?thesis by blast
  next
    case False
    then have "poll w s c n = (s, c)" by (simp add: poll_stop)
    then have "trace (fst (poll w s c n)) = trace s @ rounds 0" by simp
    then show ?thesis by blast
  qed
qed

lemma poll_rounds:
  "\<not> truthy c \<Longrightarrow> n + Suc j \<le> 100 \<Longrightarrow>
   (\<forall>k. n < k \<and> k \<le> n + j \<longrightarrow> \<not> truthy (latest_address w k)) \<Longrightarrow>
   \<exists>s'. authState s' = authState s \<and> trace s' = trace s @ rounds (Suc j) \<and>
     poll w s c n = poll w s' (latest_address w (n + Suc j)) (n + Suc j)"
proof (induction j arbitrary: s c n)
  case 0
  then have "poll w s c n = poll w (emit ReadAddressRef (emit (Sleep 100) s)) (latest_address w (Suc n)) (Suc n)"
    by (simp add: poll_step)
  then show ?case
    by (intro exI [of _ "emit ReadAddressRef (emit (Sleep 100) s)"]) (simp add: rounds_Suc)
next
  case (Suc j)
  let ?s1 = "emit ReadAddressRef (emit (Sleep 100) s)"
  from Suc.prems have step: "poll w s c n = poll w ?s1 (latest_address w (Suc n)) (Suc n)"
    by (simp add: poll_step)
  from Suc.prems have c1: "\<not> truthy (latest_address w (Suc n))" by simp
  from Suc.prems have "Suc n + Suc j \<le> 100"
    and "\<forall>k. Suc n < k \<and> k \<le> Suc n + j \<longrightarrow> \<not> truthy (latest_address w k)" by simp_all
  from Suc.IH [OF c1 this, of ?s1] obtain s' where
    "authState s' = authState ?s1" "trace s' = trace ?s1 @ rounds (Suc j)"
    "poll w ?s1 (latest_address w (Suc n)) (Suc n) = poll w s' (latest_address w (Suc n + Suc j)) (Suc n + Suc j)"
    by blast
  with step show ?case
    by (intro exI [of _ s']) (simp add: rounds_Suc)
qed

lemma poll_found:
  assumes "\<not> truthy c" "0 < m" "m \<le> 100" "truthy (latest_address w m)"
    and "\<forall>k. 1 \<le> k \<and> k < m \<longrightarrow> \<not> truthy (latest_address w k)"
  shows "\<exists>s'. authState s' = authState s \<and> trace s' = trace s @ rounds m \<and>
           poll w s c 0 = (s', latest_address w m)"
proof -
  from assms obtain j where m: "m = Suc j" by (cases m) auto
  from assms m have "0 + Suc j \<le> 100"
    and "\<forall>k. 0 < k \<and> k \<le> 0 + j \<longrightarrow> \<not> truthy (latest_address w k)" by auto
  from poll_rounds [OF assms(1) this, of s] obtain s' where
    "authState s' = authState s" "trace s' = trace s @ rounds (Suc j)"
    "poll w s c 0 = poll w s' (latest_address w (Suc j)) (Suc j)" by auto
  with assms(4) m show ?thesis by (auto simp: poll_stop)
qed

lemma poll_absent:
  assumes "\<not> truthy c" and "\<forall>k. 1 \<le> k \<and> k \<le> 100 \<longrightarrow> \<not> truthy (latest_address w k)"
  shows "\<exists>s'. authState s' = authState s \<and> trace s' = trace s @ rounds 100 \<and>
           poll w s c 0 = (s', latest_address w 100)"
proof -
  have "0 + Suc 99 \<le> (100::nat)" by simp
  moreover from assms have "\<forall>k. 0 < k \<and> k \<le> 0 + 99 \<longrightarrow> \<not> truthy (latest_address w k)" by auto
  ultimately obtain s' where
    "authState s' = authState s" "trace s' = trace s @ rounds (Suc 99)"
    "poll w s c 0 = poll w s' (latest_address w (0 + Suc 99)) (0 + Suc 99)"
    using poll_rounds [OF assms(1), of 0 99 w s] by blast
  then show ?thesis by (auto simp: poll_stop)
qed

lemma authState_poll [simp]: "authState (fst (poll w s c n)) = authState s"
proof (induction w s c n rule: poll.induct)
  case (1 w s c n)
  show ?case
  proof (cases "\<not> truthy c \<and> n < 100")
    case True
    with 1 show ?thesis by (subst poll.simps) simp
  next
    case False
    then show ?thesis by (subst poll.simps) auto
  qed
qed

lemma snd_poll_indep: "snd (poll w s c n) = snd (poll w s' c n)"
proof (induction w s c n arbitrary: s' rule: poll.induct)
  case (1 w s c n)
  show ?case
  proof (cases "\<not> truthy c \<and> n < 100")
    case True
    then show ?thesis
      using 1 [OF True, of "emit ReadAddressRef (emit (Sleep 100) s')"]
      by (subst poll.simps, subst (2) poll.simps) simp
  next
    case False
    then show ?thesis by (subst poll.simps, subst (2) poll.simps) auto
  qed
qed

subsection \<open>connect_wallet\<close>

lemma connect_wallet_unavailable:
  "\<not> isConnected w \<or> \<not> truthy (latest_address w 0) \<Longrightarrow> \<not> appKit_open w \<Longrightarrow>
   connect_wallet w s = (emit ReadAddressRef s, Inl (Error not_available))"
  by (auto simp: connect_wallet_def Let_def)

lemma connect_wallet_connected:
  "isConnected w \<Longrightarrow> truthy (latest_address w 0) \<Longrightarrow>
   connect_wallet w s = (emit ReadAddressRef s, Inr (latest_address w 0))"
  by (auto simp: connect_wallet_def Let_def)

lemma connect_wallet_polls:
  "\<not> isConnected w \<or> \<not> truthy (latest_address w 0) \<Longrightarrow> appKit_open w \<Longrightarrow>
   connect_wallet w s =
     (let (s2, polled) = poll w (emit AppKitOpen (emit ReadAddressRef s)) (latest_address w 0) 0
      in (s2, if truthy polled then Inr polled else Inl (Error connection_failed)))"
  by (auto simp: connect_wallet_def Let_def split: prod.splits)

lemma connect_wallet_absent:
  assumes "appKit_open w" and "\<not> truthy (latest_address w 0)"
    and "\<forall>k. 1 \<le> k \<and> k \<le> 100 \<longrightarrow> \<not> truthy (latest_address w k)"
  shows "\<exists>s'. authState s' = authState s \<and>
           trace s' = trace s @ ReadAddressRef # AppKitOpen # rounds 100 \<and>
           connect_wallet w s = (s', Inl (Error connection_failed))"
proof -
  from poll_absent [OF assms(2,3), of "emit AppKitOpen (emit ReadAddressRef s)"]
  obtain s' where s': "authState s' = authState s"
      "trace s' = trace s @ ReadAddressRef # AppKitOpen # rounds 100"
      "poll w (emit AppKitOpen (emit ReadAddressRef s)) (latest_address w 0) 0 = (s', latest_address w 100)"
    by auto
  from assms(3) have "\<not> truthy (latest_address w 100)" by simp
  with s' assms(1,2) show ?thesis
    by (simp add: connect_wallet_polls)
qed

lemma connect_wallet_found:
  assumes "appKit_open w" and "\<not> truthy (latest_address w 0)"
    and "0 < m" "m \<le> 100" "truthy (latest_address w m)"
    and "\<forall>k. 1 \<le> k \<and> k < m \<longrightarrow> \<not> truthy (latest_address w k)"
  shows "\<exists>s'. authState s' = authState s \<and>
           trace s' = trace s @ ReadAddressRef # AppKitOpen # rounds m \<and>
           connect_wallet w s = (s', Inr (latest_address w m))"
proof -
  from poll_found [OF assms(2-6), of "emit AppKitOpen (emit ReadAddressRef s)"]
  obtain s' where s': "authState s' = authState s"
      "trace s' = trace s @ ReadAddressRef # AppKitOpen # rounds m"
      "poll w (emit AppKitOpen (emit ReadAddressRef s)) (latest_address w 0) 0 = (s', latest_address w m)"
    by auto
  with assms(1,2,5) show ?thesis
    by (simp add: connect_wallet_polls)
qed

lemma connect_wallet_trace:
  "\<exists>j evs. j \<le> 100 \<and> waits evs = replicate j 100 \<and> updates evs = [] \<and>
     trace (fst (connect_wallet w s)) = trace s @ ReadAddressRef # evs"
proof (cases "\<not> isConnected w \<or> \<not> truthy (latest_address w 0)")
  case False
  then have "trace (fst (connect_wallet w s)) = trace s @ ReadAddressRef # []"
    by (simp add: connect_wallet_connected)
  moreover have "waits [] = replicate 0 100" "updates [] = []" by simp_all
  ultimately show ?thesis by blast
next
  case True
  show ?thesis
  proof (cases "appKit_open w")
    case False
    with True have "trace (fst (connect_wallet w s)) = trace s @ ReadAddressRef # []"
      by (simp add: connect_wallet_unavailable)
    moreover have "waits [] = replicate 0 100" "updates [] = []" by simp_all
    ultimately show ?thesis by blast
  next
    case avail: True
    obtain j where j: "j \<le> 100 - 0"
      and tr: "trace (fst (poll w (emit AppKitOpen (emit ReadAddressRef s)) (latest_address w 0) 0)) =
               trace (emit AppKitOpen (emit ReadAddressRef s)) @ rounds j"
      using poll_trace by blast
    from True avail tr
    have "trace (fst (connect_wallet w s)) = trace s @ ReadAddressRef # (AppKitOpen # rounds j)"
      by (auto simp: connect_wallet_polls split: prod.splits)
    moreover have "waits (AppKitOpen # rounds j) = replicate j 100"
      "updates (AppKitOpen # rounds j) = []" by simp_all
    ultimately show ?thesis using j by (intro exI [of _ j]) auto
  qed
qed

lemma authState_connect_wallet [simp]: "authState (fst (connect_wallet w s)) = authState s"
  by (simp add: connect_wallet_def Let_def split: prod.splits sum.splits)
     (metis authState_emit authState_poll fst_conv)

lemma snd_connect_wallet_indep: "snd (connect_wallet w s) = snd (connect_wallet w s')"
  using snd_poll_indep [of w "emit AppKitOpen (emit ReadAddressRef s)" "latest_address w 0" 0 "emit AppKitOpen (emit ReadAddressRef s')"]
  by (auto simp: connect_wallet_def Let_def split: prod.splits sum.splits)

subsection \<open>appkit_auth\<close>

lemma appkit_auth_no_address:
  "connect_wallet w s = (s1, Inl e) \<Longrightarrow> appkit_auth w s = (s1, Inl e)"
  by (simp add: appkit_auth_def)

lemma appkit_auth_address:
  "connect_wallet w s = (s1, Inr a) \<Longrightarrow>
   \<exists>evs. waits evs = [] \<and>
     trace (fst (appkit_auth w s)) = trace s1 @ SignMessage (sign_in_message w) # evs"
  by (auto simp: appkit_auth_def Let_def split: sum.splits)

lemma appkit_auth_trace:
  "\<exists>j evs. j \<le> 100 \<and> waits evs = replicate j 100 \<and>
     trace (fst (appkit_auth w s)) = trace s @ ReadAddressRef # evs"
proof -
  obtain j evs where j: "j \<le> 100" "waits evs = replicate j 100"
    and tr: "trace (fst (connect_wallet w s)) = trace s @ ReadAddressRef # evs"
    using connect_wallet_trace by blast
  obtain s1 r where c: "connect_wallet w s = (s1, r)" by (cases "connect_wallet w s")
  show ?thesis
  proof (cases r)
    case (Inl e)
    with c tr j show ?thesis by (auto simp: appkit_auth_no_address)
  next
    case (Inr a)
    with c obtain evs' where "waits evs' = []"
      "trace (fst (appkit_auth w s)) = trace s1 @ SignMessage (sign_in_message w) # evs'"
      using appkit_auth_address by blast
    with c tr j have "waits (evs @ SignMessage (sign_in_message w) # evs') = replicate j 100"
      "trace (fst (appkit_auth w s)) = trace s @ ReadAddressRef # (evs @ SignMessage (sign_in_message w) # evs')"
      by simp_all
    with j(1) show ?thesis by blast
  qed
qed

lemma appkit_auth_failed:
  "snd (appkit_auth w s) = Inl e \<Longrightarrow> authState (fst (appkit_auth w s)) = authState s"
  by (auto simp: appkit_auth_def Let_def split: prod.splits sum.splits if_splits)
     (metis authState_connect_wallet fst_conv)+

lemma appkit_auth_succeeded:
  "snd (appkit_auth w s) = Inr u \<Longrightarrow>
   \<not> isLoading (authState (fst (appkit_auth w s))) \<and>
   last (trace (fst (appkit_auth w s))) = SetAuthState (authState (fst (appkit_auth w s)))"
  by (auto simp: appkit_auth_def appkit_state_def Let_def split: prod.splits sum.splits if_splits)

lemma snd_appkit_auth_indep: "snd (appkit_auth w s) = snd (appkit_auth w s')"
  using snd_connect_wallet_indep [of w s s']
  by (auto simp: appkit_auth_def Let_def split: prod.splits sum.splits)

subsection \<open>miniapp_auth\<close>

lemma authState_request_wallet [simp]: "authState (fst (request_wallet w s)) = authState s"
  by (simp add: request_wallet_def Let_def split: sum.splits)

lemma snd_request_wallet:
  "snd (request_wallet w s) = walletAddress_of (eth_requestAccounts w)"
  by (simp add: request_wallet_def walletAddress_of_def Let_def split: sum.splits)

lemma trace_request_wallet:
  "trace (fst (request_wallet w s)) = trace s @ EthRequestAccounts #
     (case eth_requestAccounts w of
        Inl e \<Rightarrow> [ConsoleWarn ''Wallet connection failed:'' e] | Inr accounts \<Rightarrow> [])"
  by (simp add: request_wallet_def Let_def split: sum.splits)

lemma miniapp_auth_after_wallet:
  "request_wallet w s = (s1, walletAddress) \<Longrightarrow>
   \<exists>evs. filter appkit_event evs = [] \<and>
     trace (fst (miniapp_auth w s)) = trace s1 @ SdkSignIn (generateNonce w) # evs"
  by (auto simp: miniapp_auth_def Let_def split: sum.splits)

lemma miniapp_auth_failed:
  "snd (miniapp_auth w s) = Inl e \<Longrightarrow> authState (fst (miniapp_auth w s)) = authState s"
  by (auto simp: miniapp_auth_def Let_def split: prod.splits sum.splits if_splits)
     (metis authState_request_wallet fst_conv)+

lemma miniapp_auth_succeeded:
  "snd (miniapp_auth w s) = Inr u \<Longrightarrow>
   \<not> isLoading (authState (fst (miniapp_auth w s))) \<and>
   last (trace (fst (miniapp_auth w s))) = SetAuthState (authState (fst (miniapp_auth w s)))"
  by (auto simp: miniapp_auth_def miniapp_state_def Let_def split: prod.splits sum.splits if_splits)

lemma snd_miniapp_auth_indep: "snd (miniapp_auth w s) = snd (miniapp_auth w s')"
  using snd_request_wallet [of w s] snd_request_wallet [of w s']
  by (auto simp: miniapp_auth_def Let_def split: prod.splits sum.splits)

subsection \<open>Outcome shapes\<close>

lemma miniapp_auth_failed_trace:
  assumes "snd (miniapp_auth w s) = Inl e"
  shows "\<exists>evs. trace (fst (miniapp_auth w s)) = trace s @ evs \<and> updates evs = [] \<and> waits evs = []"
proof -
  obtain s1 wa where rw: "request_wallet w s = (s1, wa)" by (cases "request_wallet w s")
  then have s1: "trace s1 = trace s @ EthRequestAccounts #
     (case eth_requestAccounts w of
        Inl e \<Rightarrow> [ConsoleWarn ''Wallet connection failed:'' e] | Inr accounts \<Rightarrow> [])"
    using trace_request_wallet [of w s] by simp
  from assms rw have "\<exists>evs. trace (fst (miniapp_auth w s)) = trace s1 @ evs \<and> updates evs = [] \<and> waits evs = []"
    by (auto simp: miniapp_auth_def Let_def split: sum.splits if_splits)
  then obtain evs where "trace (fst (miniapp_auth w s)) = trace s1 @ evs" "updates evs = []" "waits evs = []"
    by blast
  with s1 show ?thesis
    by (intro exI [of _ "EthRequestAccounts #
     (case eth_requestAccounts w of
        Inl e \<Rightarrow> [ConsoleWarn ''Wallet connection failed:'' e] | Inr accounts \<Rightarrow> []) @ evs"])
       (simp split: sum.splits)
qed

lemma miniapp_auth_succeeded_trace:
  assumes "snd (miniapp_auth w s) = Inr u"
  shows "\<exists>evs. trace (fst (miniapp_auth w s)) = trace s @ evs @ [SetAuthState (authState (fst (miniapp_auth w s)))]
           \<and> updates evs = [] \<and> filter appkit_event evs = []"
proof -
  obtain s1 wa where rw: "request_wallet w s = (s1, wa)" by (cases "request_wallet w s")
  then have s1: "trace s1 = trace s @ EthRequestAccounts #
     (case eth_requestAccounts w of
        Inl e \<Rightarrow> [ConsoleWarn ''Wallet connection failed:'' e] | Inr accounts \<Rightarrow> [])"
    using trace_request_wallet [of w s] by simp
  from assms rw have "\<exists>evs. trace (fst (miniapp_auth w s)) = trace s1 @ evs @ [SetAuthState (authState (fst (miniapp_auth w s)))]
      \<and> updates evs = [] \<and> filter appkit_event evs = []"
    by (auto simp: miniapp_auth_def Let_def split: sum.splits if_splits)
  then obtain evs where "trace (fst (miniapp_auth w s)) = trace s1 @ evs @ [SetAuthState (authState (fst (miniapp_auth w s)))]"
    "updates evs = []" "filter appkit_event evs = []"
    by blast
  with s1 show ?thesis
    by (intro exI [of _ "EthRequestAccounts #
     (case eth_requestAccounts w of
        Inl e \<Rightarrow> [ConsoleWarn ''Wallet connection failed:'' e] | Inr accounts \<Rightarrow> []) @ evs"])
       (simp split: sum.splits)
qed

lemma appkit_auth_failed_trace:
  assumes "snd (appkit_auth w s) = Inl e"
  shows "\<exists>evs. trace (fst (appkit_auth w s)) = trace s @ evs \<and> updates evs = []"
proof -
  obtain s1 r where c: "connect_wallet w s = (s1, r)" by (cases "connect_wallet w s")
  obtain evs0 where evs0: "trace s1 = trace s @ evs0" "updates evs0 = []"
    using connect_wallet_trace [of w s] c by auto
  from assms c have "\<exists>evs. trace (fst (appkit_auth w s)) = trace s1 @ evs \<and> updates evs = []"
    by (auto simp: appkit_auth_def Let_def split: sum.splits if_splits)
  then obtain evs where "trace (fst (appkit_auth w s)) = trace s1 @ evs" "updates evs = []" by blast
  with evs0 show ?thesis by (intro exI [of _ "evs0 @ evs"]) simp
qed

lemma appkit_auth_succeeded_trace:
  assumes "snd (appkit_auth w s) = Inr u"
  shows "\<exists>evs. trace (fst (appkit_auth w s)) = trace s @ evs @ [SetAuthState (authState (fst (appkit_auth w s)))]
           \<and> updates evs = []"
proof -
  obtain s1 r where c: "connect_wallet w s = (s1, r)" by (cases "connect_wallet w s")
  obtain evs0 where evs0: "trace s1 = trace s @ evs0" "updates evs0 = []"
    using connect_wallet_trace [of w s] c by auto
  from assms c have "\<exists>evs. trace (fst (appkit_auth w s)) = trace s1 @ evs @ [SetAuthState (authState (fst (appkit_auth w s)))]
      \<and> updates evs = []"
    by (auto simp: appkit_auth_def Let_def split: sum.splits if_splits)
  then obtain evs where "trace (fst (appkit_auth w s)) = trace s1 @ evs @ [SetAuthState (authState (fst (appkit_auth w s)))]"
    "updates evs = []" by blast
  with evs0 show ?thesis by (intro exI [of _ "evs0 @ evs"]) simp
qed

subsection \<open>signIn_body\<close>

lemma signIn_body_browser: "\<not> isMiniapp w \<Longrightarrow> signIn_body w s = appkit_auth w s"
  by (simp add: signIn_body_def)

lemma signIn_body_miniapp:
  "isMiniapp w \<Longrightarrow> snd (miniapp_auth w s) = Inr u \<Longrightarrow> signIn_body w s = miniapp_auth w s"
  by (cases "miniapp_auth w s") (simp add: signIn_body_def)

lemma signIn_body_fallback:
  "isMiniapp w \<Longrightarrow> snd (miniapp_auth w s) = Inl e \<Longrightarrow>
   signIn_body w s = appkit_auth w (emit (fallback e) (fst (miniapp_auth w s)))"
  by (cases "miniapp_auth w s") (simp add: signIn_body_def fallback_def)

text \<open>Whenever the AppKit path runs, it runs from a state that differs from the one at entry
  by logged events only.\<close>

lemma signIn_body_appkit:
  assumes "isMiniapp w \<longrightarrow> isl (snd (miniapp_auth w s'))"
  shows "\<exists>s1 evs. authState s1 = authState s \<and> trace s1 = trace s @ evs \<and>
           updates evs = [] \<and> waits evs = [] \<and> signIn_body w s = appkit_auth w s1"
proof (cases "isMiniapp w")
  case False
  then have "signIn_body w s = appkit_auth w s" by (rule signIn_body_browser)
  then show ?thesis by (intro exI [of _ s] exI [of _ "[]"]) simp
next
  case True
  with assms have "isl (snd (miniapp_auth w s))"
    using snd_miniapp_auth_indep [of w s s'] by simp
  then obtain e where e: "snd (miniapp_auth w s) = Inl e" by (auto simp: isl_def)
  then obtain evs where evs: "trace (fst (miniapp_auth w s)) = trace s @ evs" "updates evs = []" "waits evs = []"
    using miniapp_auth_failed_trace by blast
  let ?s1 = "emit (fallback e) (fst (miniapp_auth w s))"
  from True e have "signIn_body w s = appkit_auth w ?s1" by (rule signIn_body_fallback)
  moreover from e have "authState ?s1 = authState s" by (simp add: miniapp_auth_failed)
  moreover from evs have "trace ?s1 = trace s @ (evs @ [fallback e])"
    "updates (evs @ [fallback e]) = []" "waits (evs @ [fallback e]) = []"
    by (simp_all add: fallback_def)
  ultimately show ?thesis by blast
qed

lemma signIn_body_cases:
  obtains (miniapp) u where "isMiniapp w" "snd (miniapp_auth w s) = Inr u" "signIn_body w s = miniapp_auth w s"
  | (appkit) s1 evs where "authState s1 = authState s" "trace s1 = trace s @ evs" "updates evs = []"
      "waits evs = []" "signIn_body w s = appkit_auth w s1"
      "isMiniapp w \<longrightarrow> isl (snd (miniapp_auth w s))"
proof (cases "isMiniapp w \<longrightarrow> isl (snd (miniapp_auth w s))")
  case True
  with signIn_body_appkit [OF True, of s] appkit show ?thesis by blast
next
  case False
  then obtain u where "isMiniapp w" "snd (miniapp_auth w s) = Inr u"
    by (cases "snd (miniapp_auth w s)") auto
  with miniapp signIn_body_miniapp show ?thesis by blast
qed

lemma signIn_body_failed:
  assumes "snd (signIn_body w s) = Inl e"
  shows "authState (fst (signIn_body w s)) = authState s \<and> snd (appkit_auth w s') = Inl e \<and>
         (\<exists>evs. trace (fst (signIn_body w s)) = trace s @ evs \<and> updates evs = [])"
proof (cases rule: signIn_body_cases [of w s])
  case (miniapp u)
  with assms show ?thesis by simp
next
  case (appkit s1 evs)
  with assms have f: "snd (appkit_auth w s1) = Inl e" by simp
  then obtain evs' where "trace (fst (appkit_auth w s1)) = trace s1 @ evs'" "updates evs' = []"
    using appkit_auth_failed_trace by blast
  with appkit have "trace (fst (signIn_body w s)) = trace s @ (evs @ evs')" "updates (evs @ evs') = []"
    by simp_all
  moreover from f appkit have "authState (fst (signIn_body w s)) = authState s"
    by (simp add: appkit_auth_failed)
  moreover from f have "snd (appkit_auth w s') = Inl e"
    using snd_appkit_auth_indep [of w s1 s'] by simp
  ultimately show ?thesis by blast
qed

lemma signIn_body_succeeded:
  assumes "snd (signIn_body w s) = Inr u"
  shows "\<not> isLoading (authState (fst (signIn_body w s))) \<and>
         (\<exists>evs. trace (fst (signIn_body w s)) = trace s @ evs @ [SetAuthState (authState (fst (signIn_body w s)))]
            \<and> updates evs = [])"
proof (cases rule: signIn_body_cases [of w s])
  case (miniapp u')
  with assms have ok: "snd (miniapp_auth w s) = Inr u" by simp
  from miniapp_auth_succeeded [OF ok] miniapp_auth_succeeded_trace [OF ok] miniapp(3)
  show ?thesis by auto
next
  case (appkit s1 evs)
  with assms have ok: "snd (appkit_auth w s1) = Inr u" by simp
  then obtain evs' where "trace (fst (appkit_auth w s1)) = trace s1 @ evs' @ [SetAuthState (authState (fst (appkit_auth w s1)))]"
    "updates evs' = []"
    using appkit_auth_succeeded_trace by blast
  with appkit have "trace (fst (signIn_body w s)) = trace s @ (evs @ evs') @ [SetAuthState (authState (fst (signIn_body w s)))]"
    "updates (evs @ evs') = []"
    by simp_all
  moreover from ok appkit have "\<not> isLoading (authState (fst (signIn_body w s)))"
    using appkit_auth_succeeded [OF ok] by simp
  ultimately show ?thesis by blast
qed

subsection \<open>signIn\<close>

lemma snd_signIn_catch [simp]: "snd (signIn_catch r) = snd r"
  by (simp add: signIn_catch_def split: prod.splits sum.splits)

lemma signIn_catch_Inr [simp]: "signIn_catch (s1, Inr u) = (s1, Inr u)"
  by (simp add: signIn_catch_def)

lemma signIn_catch_Inl:
  "signIn_catch (s1, Inl e) =
     (setAuthState (\<lambda>prev. prev\<lparr>isLoading := False\<rparr>) (emit (ConsoleError ''Authentication failed:'' e) s1), Inl e)"
  by (simp add: signIn_catch_def)

lemma signIn_loading: "signIn w s = signIn_catch (signIn_body w (loading s))"
  by (simp add: signIn_def loading_def)

lemma authState_loading [simp]: "authState (loading s) = (authState s)\<lparr>isLoading := True\<rparr>"
  by (simp add: loading_def)

lemma trace_loading [simp]:
  "trace (loading s) = trace s @ [SetAuthState ((authState s)\<lparr>isLoading := True\<rparr>)]"
  by (simp add: loading_def)

lemma signIn_failed:
  assumes "snd (signIn w s) = Inl e"
  shows "authState (fst (signIn w s)) = (authState s)\<lparr>isLoading := False\<rparr>"
    and "snd (appkit_auth w s') = Inl e"
proof -
  from assms have b: "snd (signIn_body w (loading s)) = Inl e" by (simp add: signIn_loading)
  obtain s1 where s1: "signIn_body w (loading s) = (s1, Inl e)"
    using b by (cases "signIn_body w (loading s)") simp
  from signIn_body_failed [OF b, of s'] s1 have "authState s1 = (authState s)\<lparr>isLoading := True\<rparr>"
    and "snd (appkit_auth w s') = Inl e" by simp_all
  with s1 show "authState (fst (signIn w s)) = (authState s)\<lparr>isLoading := False\<rparr>"
    and "snd (appkit_auth w s') = Inl e"
    by (simp_all add: signIn_loading signIn_catch_Inl)
qed

lemma signIn_shape:
  "\<exists>evs. trace (fst (signIn w s)) =
      trace s @ SetAuthState ((authState s)\<lparr>isLoading := True\<rparr>) # evs @ [SetAuthState (authState (fst (signIn w s)))]
    \<and> updates evs = [] \<and> \<not> isLoading (authState (fst (signIn w s)))"
proof (cases "snd (signIn_body w (loading s))")
  case (Inl e)
  obtain s1 where s1: "signIn_body w (loading s) = (s1, Inl e)"
    using Inl by (cases "signIn_body w (loading s)") simp
  from signIn_body_failed [OF Inl, of s] s1 obtain evs where
    "authState s1 = (authState s)\<lparr>isLoading := True\<rparr>" "trace s1 = trace (loading s) @ evs" "updates evs = []"
    by auto
  with s1 show ?thesis
    by (intro exI [of _ "evs @ [ConsoleError ''Authentication failed:'' e]"])
       (simp add: signIn_loading signIn_catch_Inl)
next
  case (Inr u)
  obtain s1 where s1: "signIn_body w (loading s) = (s1, Inr u)"
    using Inr by (cases "signIn_body w (loading s)") simp
  from signIn_body_succeeded [OF Inr] s1 obtain evs where
    "\<not> isLoading (authState s1)" "trace s1 = trace (loading s) @ evs @ [SetAuthState (authState s1)]" "updates evs = []"
    by auto
  with s1 show ?thesis
    by (intro exI [of _ evs]) (simp add: signIn_loading)
qed

subsection \<open>Successful runs\<close>

lemma get_prop_defined: "v \<noteq> JNull \<Longrightarrow> v \<noteq> JUndefined \<Longrightarrow> get_prop v k = Inr (lookup_prop v k)"
  by (cases v) simp_all

lemma miniapp_auth_result:
  assumes "sdk_signIn w (generateNonce w) = Inr (message, signature)"
    and "fetch_miniapp w (auth_url w)
           (miniapp_body message signature (walletAddress_of (eth_requestAccounts w))) = Inr response"
    and "ok response" and "json response = Inr data" and "data \<noteq> JNull" and "data \<noteq> JUndefined"
  shows "snd (miniapp_auth w s) = Inr () \<and>
         authState (fst (miniapp_auth w s)) =
           \<lparr>token = JStr signature,
            userData = JObj [(''fid'', lookup_prop data ''fid''),
                             (''address'', if truthy (walletAddress_of (eth_requestAccounts w))
                                           then walletAddress_of (eth_requestAccounts w)
                                           else lookup_prop data ''address'')],
            isLoading = False\<rparr>"
proof -
  obtain s1 wa where rw: "request_wallet w s = (s1, wa)" by (cases "request_wallet w s")
  then have wa: "wa = walletAddress_of (eth_requestAccounts w)"
    using snd_request_wallet [of w s] by simp
  from assms(5,6) have "miniapp_state signature wa data =
      Inr \<lparr>token = JStr signature,
           userData = JObj [(''fid'', lookup_prop data ''fid''),
                            (''address'', if truthy wa then wa else lookup_prop data ''address'')],
           isLoading = False\<rparr>"
    by (simp add: miniapp_state_def get_prop_defined)
  with assms(1-4) rw wa show ?thesis
    by (simp add: miniapp_auth_def Let_def)
qed

lemma appkit_auth_result:
  assumes "snd (connect_wallet w s) = Inr currentAddress"
    and "signMessageAsync w (sign_in_message w) = Inr signature"
    and "fetch_appkit w (auth_url w) (appkit_body currentAddress (sign_in_message w) signature) = Inr response"
    and "ok response" and "json response = Inr data" and "data \<noteq> JNull" and "data \<noteq> JUndefined"
  shows "snd (appkit_auth w s) = Inr () \<and>
         authState (fst (appkit_auth w s)) =
           \<lparr>token = (if truthy (lookup_prop data ''token'') then lookup_prop data ''token''
                     else JStr signature),
            userData = JObj (spread [(''address'', currentAddress)] data),
            isLoading = False\<rparr>"
proof -
  obtain s1 where c: "connect_wallet w s = (s1, Inr currentAddress)"
    using assms(1) by (cases "connect_wallet w s") simp
  from assms(6,7) have "appkit_state signature currentAddress data =
      Inr \<lparr>token = (if truthy (lookup_prop data ''token'') then lookup_prop data ''token''
                     else JStr signature),
           userData = JObj (spread [(''address'', currentAddress)] data),
           isLoading = False\<rparr>"
    by (simp add: appkit_state_def get_prop_defined)
  with assms(2-5) c show ?thesis
    by (simp add: appkit_auth_def Let_def)
qed

lemma signIn_miniapp_result:
  assumes "isMiniapp w"
    and "sdk_signIn w (generateNonce w) = Inr (message, signature)"
    and "fetch_miniapp w (auth_url w)
           (miniapp_body message signature (walletAddress_of (eth_requestAccounts w))) = Inr response"
    and "ok response" and "json response = Inr data" and "data \<noteq> JNull" and "data \<noteq> JUndefined"
  shows "signIn w s = miniapp_auth w (loading s)"
    and "snd (miniapp_auth w (loading s)) = Inr ()"
    and "authState (fst (miniapp_auth w (loading s))) =
           \<lparr>token = JStr signature,
            userData = JObj [(''fid'', lookup_prop data ''fid''),
                             (''address'', if truthy (walletAddress_of (eth_requestAccounts w))
                                           then walletAddress_of (eth_requestAccounts w)
                                           else lookup_prop data ''address'')],
            isLoading = False\<rparr>"
proof -
  from miniapp_auth_result [OF assms(2-7), of "loading s"]
  show r: "snd (miniapp_auth w (loading s)) = Inr ()"
    and "authState (fst (miniapp_auth w (loading s))) =
           \<lparr>token = JStr signature,
            userData = JObj [(''fid'', lookup_prop data ''fid''),
                             (''address'', if truthy (walletAddress_of (eth_requestAccounts w))
                                           then walletAddress_of (eth_requestAccounts w)
                                           else lookup_prop data ''address'')],
            isLoading = False\<rparr>"
    by simp_all
  from assms(1) r have "signIn_body w (loading s) = miniapp_auth w (loading s)"
    by (rule signIn_body_miniapp)
  with r show "signIn w s = miniapp_auth w (loading s)"
    by (cases "miniapp_auth w (loading s)") (simp add: signIn_loading)
qed

lemma signIn_via_appkit:
  assumes "isMiniapp w \<longrightarrow> isl (snd (miniapp_auth w s'))"
  shows "\<exists>s1 evs. authState s1 = (authState s)\<lparr>isLoading := True\<rparr> \<and>
           trace s1 = trace s @ SetAuthState ((authState s)\<lparr>isLoading := True\<rparr>) # evs \<and>
           updates evs = [] \<and> waits evs = [] \<and>
           signIn w s = signIn_catch (appkit_auth w s1)"
proof -
  from signIn_body_appkit [OF assms, of "loading s"] obtain s1 evs where
    "authState s1 = authState (loading s)" "trace s1 = trace (loading s) @ evs"
    "updates evs = []" "waits evs = []" "signIn_body w (loading s) = appkit_auth w s1"
    by blast
  then show ?thesis
    by (intro exI [of _ s1] exI [of _ evs]) (simp add: signIn_loading)
qed

lemma signIn_appkit_result:
  assumes "isMiniapp w \<longrightarrow> isl (snd (miniapp_auth w s'))"
    and "snd (connect_wallet w s'') = Inr currentAddress"
    and "signMessageAsync w (sign_in_message w) = Inr signature"
    and "fetch_appkit w (auth_url w) (appkit_body currentAddress (sign_in_message w) signature) = Inr response"
    and "ok response" and "json response = Inr data" and "data \<noteq> JNull" and "data \<noteq> JUndefined"
  shows "snd (signIn w s) = Inr () \<and>
         authState (fst (signIn w s)) =
           \<lparr>token = (if truthy (lookup_prop data ''token'') then lookup_prop data ''token''
                     else JStr signature),
            userData = JObj (spread [(''address'', currentAddress)] data),
            isLoading = False\<rparr>"
proof -
  from signIn_via_appkit [OF assms(1), of s] obtain s1 where
    s1: "signIn w s = signIn_catch (appkit_auth w s1)" by blast
  from assms(2) have "snd (connect_wallet w s1) = Inr currentAddress"
    using snd_connect_wallet_indep [of w s1 s''] by simp
  from appkit_auth_result [OF this assms(3-8)] s1 show ?thesis
    by (cases "appkit_auth w s1") simp
qed

lemma signIn_updates:
  "updates (performed s (fst (signIn w s))) =
     [(authState s)\<lparr>isLoading := True\<rparr>, authState (fst (signIn w s))]"
proof -
  obtain evs where "trace (fst (signIn w s)) =
      trace s @ SetAuthState ((authState s)\<lparr>isLoading := True\<rparr>) # evs @ [SetAuthState (authState (fst (signIn w s)))]"
    "updates evs = []"
    using signIn_shape by blast
  then show ?thesis by (simp add: performed_def)
qed

subsection \<open>Spreading\<close>

lemma map_of_fold_update:
  "distinct (map fst ps) \<Longrightarrow>
   map_of (fold (\<lambda>(k, x). AList.update k x) ps base) = map_of base ++ map_of ps"
proof (induction ps arbitrary: base)
  case Nil
  then show ?case by simp
next
  case (Cons p ps)
  obtain k x where p: "p = (k, x)" by (cases p)
  from Cons.prems p have k: "k \<notin> dom (map_of ps)" and d: "distinct (map fst ps)"
    by (auto simp: dom_map_of_conv_image_fst)
  have pointwise: "map_of (fold (\<lambda>(k, x). AList.update k x) (p # ps) base) y = (map_of base ++ map_of (p # ps)) y" for y
    using Cons.IH [OF d, of "AList.update k x base"] p k
    by (auto simp: update_conv' map_add_def split: option.splits)
  show ?case by (rule ext) (rule pointwise)
qed

lemma lookup_spread:
  "distinct (map fst (own_props data)) \<Longrightarrow>
   lookup_prop (JObj (spread base data)) k =
     (case map_of (own_props data) k of
        Some x \<Rightarrow> x
      | None \<Rightarrow> lookup_prop (JObj base) k)"
  by (simp add: lookup_prop_def spread_def map_of_fold_update map_add_def split: option.splits)

subsection \<open>Where \<open>signIn\<close> goes\<close>

lemma signIn_catch_trace:
  "\<exists>evs. waits evs = [] \<and> trace (fst (signIn_catch r)) = trace (fst r) @ evs"
proof (cases r)
  case (Pair s1 x)
  then show ?thesis
  proof (cases x)
    case (Inl e)
    with Pair have "trace (fst (signIn_catch r)) = trace (fst r) @
        [ConsoleError ''Authentication failed:'' e, SetAuthState ((authState s1)\<lparr>isLoading := False\<rparr>)]"
      by (simp add: signIn_catch_Inl)
    moreover have "waits [ConsoleError ''Authentication failed:'' e, SetAuthState ((authState s1)\<lparr>isLoading := False\<rparr>)] = []"
      by simp
    ultimately show ?thesis by blast
  next
    case (Inr u)
    with Pair have "trace (fst (signIn_catch r)) = trace (fst r) @ []" by simp
    then show ?thesis by (intro exI [of _ "[]"]) simp
  qed
qed

lemma miniapp_auth_fails:
  assumes "sdk_signIn w (generateNonce w) = Inl e \<or>
     (sdk_signIn w (generateNonce w) = Inr (message, signature) \<and>
      (fetch_miniapp w (auth_url w)
         (miniapp_body message signature (walletAddress_of (eth_requestAccounts w))) = Inl e \<or>
       (fetch_miniapp w (auth_url w)
          (miniapp_body message signature (walletAddress_of (eth_requestAccounts w))) = Inr response \<and>
        (\<not> ok response \<or> json response = Inl e \<or> json response = Inr JNull))))"
  shows "isl (snd (miniapp_auth w s))"
proof -
  obtain s1 wa where rw: "request_wallet w s = (s1, wa)" by (cases "request_wallet w s")
  then have wa: "wa = walletAddress_of (eth_requestAccounts w)"
    using snd_request_wallet [of w s] by simp
  from assms rw wa show ?thesis
    by (auto simp: miniapp_auth_def miniapp_state_def Let_def)
qed

lemma signIn_extends_miniapp:
  assumes "isMiniapp w"
  shows "\<exists>evs. trace (fst (signIn w s)) = trace (fst (miniapp_auth w (loading s))) @ evs"
proof -
  have "\<exists>evs. trace (fst (signIn_body w (loading s))) = trace (fst (miniapp_auth w (loading s))) @ evs"
  proof (cases "snd (miniapp_auth w (loading s))")
    case (Inr u)
    with assms have "signIn_body w (loading s) = miniapp_auth w (loading s)"
      by (rule signIn_body_miniapp)
    then show ?thesis by simp
  next
    case (Inl e)
    with assms have "signIn_body w (loading s) =
        appkit_auth w (emit (fallback e) (fst (miniapp_auth w (loading s))))"
      by (rule signIn_body_fallback)
    moreover obtain j evs where "trace (fst (appkit_auth w (emit (fallback e) (fst (miniapp_auth w (loading s)))))) =
        trace (emit (fallback e) (fst (miniapp_auth w (loading s)))) @ ReadAddressRef # evs"
      using appkit_auth_trace by blast
    ultimately show ?thesis by simp
  qed
  then obtain evs where "trace (fst (signIn_body w (loading s))) = trace (fst (miniapp_auth w (loading s))) @ evs"
    by blast
  moreover obtain evs' where "trace (fst (signIn w s)) = trace (fst (signIn_body w (loading s))) @ evs'"
    using signIn_catch_trace [of "signIn_body w (loading s)"] by (auto simp: signIn_loading)
  ultimately show ?thesis by simp
qed

subsection \<open>Evaluating the concrete worlds\<close>

lemmas world_defs = world_offline_def ok_response_def sys_initial_def sys_signed_in_def
  world_embedded_def world_fallback_def world_embedded_no_wallet_def world_embedded_unconfigured_def world_never_connects_def
  world_connects_late_def world_backend_identity_def

section \<open>The claims\<close>

text \<open>
  C1. An embedded sign-in in which the host sign-in call returns \<open>{message, signature}\<close>
  and the backend answers 2xx with a body \<open>data\<close> (a JSON value other than \<open>null\<close>, so
  that \<open>data.fid\<close> can be read): \<open>signIn\<close> returns normally, the final state is
  \<open>token = signature\<close>, \<open>userData = {fid: data.fid, address: walletAddress || data.address}\<close>,
  \<open>isLoading = false\<close>, and nothing of the AppKit path was executed. \<open>walletAddress\<close> is the
  first account of the account request, or \<open>null\<close> when the request failed or gave none.
\<close>

theorem signIn_miniapp_success:
  assumes "isMiniapp w"
    and "sdk_signIn w (generateNonce w) = Inr (message, signature)"
    and "walletAddress = walletAddress_of (eth_requestAccounts w)"
    and "fetch_miniapp w (auth_url w) (miniapp_body message signature walletAddress) = Inr response"
    and "ok response" and "json response = Inr data" and "data \<noteq> JNull" and "data \<noteq> JUndefined"
  shows "snd (signIn w s) = Inr () \<and>
         authState (fst (signIn w s)) =
           \<lparr>token = JStr signature,
            userData = JObj [(''fid'', lookup_prop data ''fid''),
                             (''address'', if truthy walletAddress then walletAddress
                                           else lookup_prop data ''address'')],
            isLoading = False\<rparr> \<and>
         filter appkit_event (performed s (fst (signIn w s))) = []"
proof -
  note hyps = assms(1,2) assms(4-8) [unfolded assms(3)]
  have run: "signIn w s = miniapp_auth w (loading s)"
    and res: "snd (miniapp_auth w (loading s)) = Inr ()"
    and st: "authState (fst (miniapp_auth w (loading s))) =
           \<lparr>token = JStr signature,
            userData = JObj [(''fid'', lookup_prop data ''fid''),
                             (''address'', if truthy walletAddress then walletAddress
                                           else lookup_prop data ''address'')],
            isLoading = False\<rparr>"
    using signIn_miniapp_result [OF hyps, of s] assms(3) by simp_all
  from miniapp_auth_succeeded_trace [OF res] obtain evs where
    "trace (fst (miniapp_auth w (loading s))) =
       trace (loading s) @ evs @ [SetAuthState (authState (fst (miniapp_auth w (loading s))))]"
    "filter appkit_event evs = []" by blast
  with run have "filter appkit_event (performed s (fst (signIn w s))) = []"
    by (simp add: performed_def)
  with run res st show ?thesis by simp
qed

theorem signIn_miniapp_success_witness:
  "isMiniapp world_embedded \<and>
   sdk_signIn world_embedded (generateNonce world_embedded) = Inr (''m'', ''sig1'') \<and>
   eth_requestAccounts world_embedded = Inr (Some [''0xAAA'']) \<and>
   snd (signIn world_embedded sys_initial) = Inr () \<and>
   authState (fst (signIn world_embedded sys_initial)) =
     \<lparr>token = JStr ''sig1'',
      userData = JObj [(''fid'', JNum 42), (''address'', JStr ''0xAAA'')],
      isLoading = False\<rparr> \<and>
   filter appkit_event (performed sys_initial (fst (signIn world_embedded sys_initial))) = []"
  using signIn_miniapp_success [where w = world_embedded and s = sys_initial and message = "''m''"
      and signature = "''sig1''" and walletAddress = "JStr ''0xAAA''"
      and response = "ok_response (JObj [(''fid'', JNum 42)])" and data = "JObj [(''fid'', JNum 42)]"]
  by (simp add: world_defs walletAddress_of_def lookup_prop_def)

text \<open>
  C2. In the embedded environment: (a) a failed account request is logged and the host sign-in
  call is made all the same, and the sign-in can still succeed, with the backend's address;
  (b) when the host sign-in call fails, or the verification request fails, answers non-2xx or
  has no usable body, nothing is thrown at that point: \<open>signIn\<close> continues with the AppKit
  path and ends as that path ends; (c) whenever \<open>signIn\<close> throws, the thrown value is one the
  AppKit path threw.
\<close>

theorem signIn_miniapp_recovery:
  assumes "isMiniapp w"
  shows "(eth_requestAccounts w = Inl walletError \<longrightarrow>
            (\<exists>evs. performed s (fst (signIn w s)) =
               SetAuthState ((authState s)\<lparr>isLoading := True\<rparr>) # EthRequestAccounts #
               ConsoleWarn ''Wallet connection failed:'' walletError #
               SdkSignIn (generateNonce w) # evs) \<and>
            (sdk_signIn w (generateNonce w) = Inr (message, signature) \<and>
             fetch_miniapp w (auth_url w) (miniapp_body message signature JNull) = Inr response \<and>
             ok response \<and> json response = Inr data \<and> data \<noteq> JNull \<and> data \<noteq> JUndefined \<longrightarrow>
               snd (signIn w s) = Inr () \<and>
               authState (fst (signIn w s)) =
                 \<lparr>token = JStr signature,
                  userData = JObj [(''fid'', lookup_prop data ''fid''),
                                   (''address'', lookup_prop data ''address'')],
                  isLoading = False\<rparr>)) \<and>
         (sdk_signIn w (generateNonce w) = Inl e \<or>
          (sdk_signIn w (generateNonce w) = Inr (message, signature) \<and>
           (fetch_miniapp w (auth_url w)
              (miniapp_body message signature (walletAddress_of (eth_requestAccounts w))) = Inl e \<or>
            (fetch_miniapp w (auth_url w)
               (miniapp_body message signature (walletAddress_of (eth_requestAccounts w))) = Inr response \<and>
             (\<not> ok response \<or> json response = Inl e \<or> json response = Inr JNull)))) \<longrightarrow>
            (\<exists>s1 evs. authState s1 = (authState s)\<lparr>isLoading := True\<rparr> \<and>
               trace s1 = trace s @ SetAuthState ((authState s)\<lparr>isLoading := True\<rparr>) # evs \<and>
               updates evs = [] \<and>
               signIn w s = signIn_catch (appkit_auth w s1)) \<and>
            snd (signIn w s) = snd (appkit_auth w s')) \<and>
         (snd (signIn w s) = Inl error \<longrightarrow> snd (appkit_auth w s') = Inl error)"
proof (intro conjI impI)
  assume failed: "eth_requestAccounts w = Inl walletError"
  obtain s1 wa where rw: "request_wallet w (loading s) = (s1, wa)"
    by (cases "request_wallet w (loading s)")
  with failed have "trace s1 = trace (loading s) @
      [EthRequestAccounts, ConsoleWarn ''Wallet connection failed:'' walletError]"
    using trace_request_wallet [of w "loading s"] by simp
  moreover from rw obtain evs where "trace (fst (miniapp_auth w (loading s))) =
      trace s1 @ SdkSignIn (generateNonce w) # evs"
    using miniapp_auth_after_wallet by blast
  moreover obtain evs' where "trace (fst (signIn w s)) = trace (fst (miniapp_auth w (loading s))) @ evs'"
    using signIn_extends_miniapp [OF assms] by blast
  ultimately have "performed s (fst (signIn w s)) =
      SetAuthState ((authState s)\<lparr>isLoading := True\<rparr>) # EthRequestAccounts #
      ConsoleWarn ''Wallet connection failed:'' walletError #
      SdkSignIn (generateNonce w) # (evs @ evs')"
    by (simp add: performed_def)
  then show "\<exists>evs. performed s (fst (signIn w s)) =
      SetAuthState ((authState s)\<lparr>isLoading := True\<rparr>) # EthRequestAccounts #
      ConsoleWarn ''Wallet connection failed:'' walletError #
      SdkSignIn (generateNonce w) # evs"
    by blast
next
  assume failed: "eth_requestAccounts w = Inl walletError"
    and rest: "sdk_signIn w (generateNonce w) = Inr (message, signature) \<and>
      fetch_miniapp w (auth_url w) (miniapp_body message signature JNull) = Inr response \<and>
      ok response \<and> json response = Inr data \<and> data \<noteq> JNull \<and> data \<noteq> JUndefined"
  from failed have wa: "walletAddress_of (eth_requestAccounts w) = JNull"
    by (simp add: walletAddress_of_def)
  from rest have "sdk_signIn w (generateNonce w) = Inr (message, signature)"
    and "fetch_miniapp w (auth_url w)
           (miniapp_body message signature (walletAddress_of (eth_requestAccounts w))) = Inr response"
    and "ok response" and "json response = Inr data" and "data \<noteq> JNull" and "data \<noteq> JUndefined"
    by (simp_all add: wa)
  from signIn_miniapp_result [OF assms this, of s] wa
  show "snd (signIn w s) = Inr ()"
    and "authState (fst (signIn w s)) =
          \<lparr>token = JStr signature,
           userData = JObj [(''fid'', lookup_prop data ''fid''),
                            (''address'', lookup_prop data ''address'')],
           isLoading = False\<rparr>"
    by simp_all
next
  assume "sdk_signIn w (generateNonce w) = Inl e \<or>
          (sdk_signIn w (generateNonce w) = Inr (message, signature) \<and>
           (fetch_miniapp w (auth_url w)
              (miniapp_body message signature (walletAddress_of (eth_requestAccounts w))) = Inl e \<or>
            (fetch_miniapp w (auth_url w)
               (miniapp_body message signature (walletAddress_of (eth_requestAccounts w))) = Inr response \<and>
             (\<not> ok response \<or> json response = Inl e \<or> json response = Inr JNull))))"
  then have "isl (snd (miniapp_auth w s))" by (rule miniapp_auth_fails)
  then have reach: "isMiniapp w \<longrightarrow> isl (snd (miniapp_auth w s))" by simp
  from signIn_via_appkit [OF reach, of s] obtain s1 evs where
    s1: "authState s1 = (authState s)\<lparr>isLoading := True\<rparr>"
      "trace s1 = trace s @ SetAuthState ((authState s)\<lparr>isLoading := True\<rparr>) # evs"
      "updates evs = []" "signIn w s = signIn_catch (appkit_auth w s1)"
    by blast
  then show "\<exists>s1 evs. authState s1 = (authState s)\<lparr>isLoading := True\<rparr> \<and>
               trace s1 = trace s @ SetAuthState ((authState s)\<lparr>isLoading := True\<rparr>) # evs \<and>
               updates evs = [] \<and>
               signIn w s = signIn_catch (appkit_auth w s1)"
    by blast
  from s1(4) show "snd (signIn w s) = snd (appkit_auth w s')"
    using snd_appkit_auth_indep [of w s1 s'] by simp
next
  assume "snd (signIn w s) = Inl error"
  then show "snd (appkit_auth w s') = Inl error" by (rule signIn_failed(2))
qed

theorem signIn_miniapp_recovery_witness:
  "isMiniapp world_embedded_unconfigured \<and>
   eth_requestAccounts world_embedded_unconfigured = Inl (Thrown (JStr ''no provider'')) \<and>
   sdk_signIn world_embedded_unconfigured (generateNonce world_embedded_unconfigured) =
     Inl (Thrown (JStr ''rejected'')) \<and>
   snd (signIn world_embedded_unconfigured sys_initial) = Inl (Error not_available) \<and>
   (\<exists>evs. performed sys_initial (fst (signIn world_embedded_unconfigured sys_initial)) =
      SetAuthState \<lparr>token = JNull, userData = JNull, isLoading = True\<rparr> # EthRequestAccounts #
      ConsoleWarn ''Wallet connection failed:'' (Thrown (JStr ''no provider'')) #
      SdkSignIn ''k3x9'' # evs) \<and>
   snd (signIn world_embedded_unconfigured sys_initial) =
     snd (appkit_auth world_embedded_unconfigured sys_initial) \<and>
   isMiniapp world_embedded_no_wallet \<and>
   eth_requestAccounts world_embedded_no_wallet = Inl (Thrown (JStr ''no provider'')) \<and>
   snd (signIn world_embedded_no_wallet sys_initial) = Inr () \<and>
   authState (fst (signIn world_embedded_no_wallet sys_initial)) =
     \<lparr>token = JStr ''sig4'',
      userData = JObj [(''fid'', JNum 9), (''address'', JStr ''0xEEE'')],
      isLoading = False\<rparr>"
proof -
  have a: "snd (appkit_auth world_embedded_unconfigured sys_initial) = Inl (Error not_available)"
    by (simp add: appkit_auth_def connect_wallet_def latest_address_def Let_def world_defs)
  show ?thesis
    using signIn_miniapp_recovery [where w = world_embedded_unconfigured and s = sys_initial
        and s' = sys_initial and walletError = "Thrown (JStr ''no provider'')"
        and e = "Thrown (JStr ''rejected'')" and error = "Error not_available"]
      signIn_miniapp_recovery [where w = world_embedded_no_wallet and s = sys_initial
        and walletError = "Thrown (JStr ''no provider'')" and message = "''m''"
        and signature = "''sig4''"
        and response = "ok_response (JObj [(''fid'', JNum 9), (''address'', JStr ''0xEEE'')])"
        and data = "JObj [(''fid'', JNum 9), (''address'', JStr ''0xEEE'')]"] a
    by (simp add: world_defs initialAuthState_def lookup_prop_def)
qed

text \<open>
  C3. In the AppKit path (entered directly, or after the miniapp path threw), with no address
  at the first read and the connector UI opened: if none of the next 100 reads yields an
  address, \<open>signIn\<close> throws the "wallet connection failed" error after exactly 100 waits of
  100 ms; if the \<open>m\<close>-th read (\<open>1 \<le> m \<le> 100\<close>) is the first to yield one, there are exactly
  \<open>m\<close> waits of 100 ms and the sign-in goes on to the signature request; in every case the
  waits of an invocation are at most 100, each of 100 ms.
\<close>

theorem signIn_polling:
  assumes "isMiniapp w \<longrightarrow> isl (snd (miniapp_auth w s'))"
    and "appKit_open w" and "\<not> truthy (latest_address w 0)"
  shows "((\<forall>k. 1 \<le> k \<and> k \<le> 100 \<longrightarrow> \<not> truthy (latest_address w k)) \<longrightarrow>
            snd (signIn w s) = Inl (Error connection_failed) \<and>
            waits (performed s (fst (signIn w s))) = replicate 100 100) \<and>
         (1 \<le> m \<and> m \<le> 100 \<and> truthy (latest_address w m) \<and>
          (\<forall>k. 1 \<le> k \<and> k < m \<longrightarrow> \<not> truthy (latest_address w k)) \<longrightarrow>
            waits (performed s (fst (signIn w s))) = replicate m 100 \<and>
            SignMessage (sign_in_message w) \<in> set (performed s (fst (signIn w s)))) \<and>
         (\<exists>j\<le>100. waits (performed s (fst (signIn w s))) = replicate j 100)"
proof -
  from signIn_via_appkit [OF assms(1), of s] obtain s1 evs where
    s1: "trace s1 = trace s @ SetAuthState ((authState s)\<lparr>isLoading := True\<rparr>) # evs"
      "waits evs = []" "signIn w s = signIn_catch (appkit_auth w s1)"
    by blast
  obtain evs3 where evs3: "waits evs3 = []"
    "trace (fst (signIn w s)) = trace (fst (appkit_auth w s1)) @ evs3"
    using signIn_catch_trace [of "appkit_auth w s1"] s1(3) by auto
  have absent: "snd (signIn w s) = Inl (Error connection_failed) \<and>
      waits (performed s (fst (signIn w s))) = replicate 100 100"
    if "\<forall>k. 1 \<le> k \<and> k \<le> 100 \<longrightarrow> \<not> truthy (latest_address w k)"
  proof -
    from connect_wallet_absent [OF assms(2,3) that, of s1] obtain s2 where
      s2: "trace s2 = trace s1 @ ReadAddressRef # AppKitOpen # rounds 100"
        "connect_wallet w s1 = (s2, Inl (Error connection_failed))"
      by blast
    then have a: "appkit_auth w s1 = (s2, Inl (Error connection_failed))"
      by (simp add: appkit_auth_no_address)
    with s1(3) have "snd (signIn w s) = Inl (Error connection_failed)" by simp
    moreover from a evs3 s2(1) s1(1,2)
    have "waits (performed s (fst (signIn w s))) = replicate 100 100"
      by (simp add: performed_def)
    ultimately show ?thesis by simp
  qed
  have found: "waits (performed s (fst (signIn w s))) = replicate m 100 \<and>
      SignMessage (sign_in_message w) \<in> set (performed s (fst (signIn w s)))"
    if "1 \<le> m \<and> m \<le> 100 \<and> truthy (latest_address w m) \<and>
        (\<forall>k. 1 \<le> k \<and> k < m \<longrightarrow> \<not> truthy (latest_address w k))"
  proof -
    from that have "0 < m" "m \<le> 100" "truthy (latest_address w m)"
      "\<forall>k. 1 \<le> k \<and> k < m \<longrightarrow> \<not> truthy (latest_address w k)" by simp_all
    from connect_wallet_found [OF assms(2,3) this, of s1] obtain s2 where
      s2: "trace s2 = trace s1 @ ReadAddressRef # AppKitOpen # rounds m"
        "connect_wallet w s1 = (s2, Inr (latest_address w m))"
      by blast
    from appkit_auth_address [OF s2(2)] obtain evs2 where
      "waits evs2 = []"
      "trace (fst (appkit_auth w s1)) = trace s2 @ SignMessage (sign_in_message w) # evs2"
      by blast
    with evs3 s2(1) s1(1,2) show ?thesis
      by (simp add: performed_def)
  qed
  have bound: "\<exists>j\<le>100. waits (performed s (fst (signIn w s))) = replicate j 100"
  proof -
    obtain j evs2 where "j \<le> 100" "waits evs2 = replicate j 100"
      "trace (fst (appkit_auth w s1)) = trace s1 @ ReadAddressRef # evs2"
      using appkit_auth_trace by blast
    with evs3 s1(1,2) have "j \<le> 100 \<and> waits (performed s (fst (signIn w s))) = replicate j 100"
      by (simp add: performed_def)
    then show ?thesis by blast
  qed
  from absent found bound show ?thesis by blast
qed

theorem signIn_polling_witness:
  "appKit_open world_never_connects \<and> \<not> truthy (latest_address world_never_connects 0) \<and>
   snd (signIn world_never_connects sys_initial) = Inl (Error connection_failed) \<and>
   waits (performed sys_initial (fst (signIn world_never_connects sys_initial))) = replicate 100 100 \<and>
   appKit_open world_connects_late \<and> \<not> truthy (latest_address world_connects_late 0) \<and>
   truthy (latest_address world_connects_late 3) \<and>
   waits (performed sys_initial (fst (signIn world_connects_late sys_initial))) = replicate 3 100 \<and>
   SignMessage (sign_in_message world_connects_late)
     \<in> set (performed sys_initial (fst (signIn world_connects_late sys_initial)))"
  using signIn_polling [where w = world_never_connects and s = sys_initial and s' = sys_initial and m = 1]
    signIn_polling [where w = world_connects_late and s = sys_initial and s' = sys_initial and m = 3]
  by (simp add: world_defs latest_address_def)

text \<open>
  C4. Every invocation of \<open>signIn\<close> first sets \<open>isLoading\<close> to true, leaving the other
  fields as they were, and last sets the state in which it settles, where \<open>isLoading\<close> is
  false; there is no state update in between. This holds whether it returns or throws, so an
  error reaches the caller only after the reset.
\<close>

theorem signIn_isLoading:
  "\<exists>evs. performed s (fst (signIn w s)) =
      SetAuthState ((authState s)\<lparr>isLoading := True\<rparr>) # evs @
      [SetAuthState (authState (fst (signIn w s)))] \<and>
    updates evs = [] \<and> isLoading (authState (fst (signIn w s))) = False"
proof -
  obtain evs where "trace (fst (signIn w s)) =
      trace s @ SetAuthState ((authState s)\<lparr>isLoading := True\<rparr>) # evs @ [SetAuthState (authState (fst (signIn w s)))]"
    "updates evs = []" "\<not> isLoading (authState (fst (signIn w s)))"
    using signIn_shape by blast
  then show ?thesis by (intro exI [of _ evs]) (simp add: performed_def)
qed

text \<open>
  C5. \<open>signOut\<close> leaves the initial state, whatever the state before; it requests the
  connector's disconnect exactly when the environment is not a miniapp and a wallet is connected,
  and does so before resetting the state.
\<close>

theorem signOut_resets:
  "authState (signOut w s) = initialAuthState \<and>
   (Disconnect \<in> set (performed s (signOut w s))) = (\<not> isMiniapp w \<and> isConnected w) \<and>
   performed s (signOut w s) =
     (if \<not> isMiniapp w \<and> isConnected w then [Disconnect] else []) @ [SetAuthState initialAuthState]"
  by (simp add: signOut_def initialAuthState_def performed_def)

text \<open>
  C6. The exported flag is "token present" in a miniapp and "wallet connected and token
  present" otherwise, where a token is present when it is truthy: not \<open>null\<close> and not the
  empty string (nor any other falsy value).
\<close>

theorem isAuthenticated_rule:
  "isAuthenticated w st =
     (if isMiniapp w then token st \<notin> {JUndefined, JNull, JBool False, JNum 0, JStr ''''}
      else (isConnected w \<and> token st \<notin> {JUndefined, JNull, JBool False, JNum 0, JStr ''''}))"
  by (cases "token st") (auto simp: isAuthenticated_def)

text \<open>
  C7. Outside a miniapp, with no active connection or no known address, and no way to open
  the connector UI, \<open>signIn\<close> throws the "wallet connection not available" error; afterwards
  \<open>isLoading\<close> is false and \<open>token\<close> and \<open>userData\<close> are what they were.
\<close>

theorem signIn_not_available:
  assumes "\<not> isMiniapp w" and "\<not> isConnected w \<or> \<not> truthy (latest_address w 0)"
    and "\<not> appKit_open w"
  shows "snd (signIn w s) = Inl (Error not_available) \<and>
         isLoading (authState (fst (signIn w s))) = False \<and>
         token (authState (fst (signIn w s))) = token (authState s) \<and>
         userData (authState (fst (signIn w s))) = userData (authState s)"
proof -
  from assms(2,3) have "appkit_auth w (loading s) = (emit ReadAddressRef (loading s), Inl (Error not_available))"
    by (simp add: connect_wallet_unavailable appkit_auth_no_address)
  with assms(1) show ?thesis
    by (simp add: signIn_loading signIn_body_browser signIn_catch_Inl)
qed

theorem signIn_not_available_witness:
  "\<not> isMiniapp world_offline \<and> \<not> isConnected world_offline \<and> \<not> appKit_open world_offline \<and>
   snd (signIn world_offline sys_initial) = Inl (Error not_available) \<and>
   isLoading (authState (fst (signIn world_offline sys_initial))) = False \<and>
   token (authState (fst (signIn world_offline sys_initial))) = JNull \<and>
   token (authState (fst (signIn world_offline sys_signed_in))) = JStr ''sig0''"
  using signIn_not_available [where w = world_offline and s = sys_initial]
    signIn_not_available [where w = world_offline and s = sys_signed_in]
  by (simp add: world_defs initialAuthState_def)

text \<open>
  C8. In the AppKit path (entered directly, or after the miniapp path threw), when the backend
  answers 2xx with a body \<open>data\<close> (a JSON value other than \<open>null\<close>): \<open>signIn\<close> returns
  normally and the stored token is \<open>data.token || signature\<close>, that is \<open>data.token\<close> when
  the backend provided one (a truthy value, such as a non-empty string) and the wallet
  signature otherwise (no \<open>token\<close> field, or a falsy one); the token, the user data and
  \<open>isLoading = false\<close> are set by one and the same state update, the only one after the
  update that set \<open>isLoading\<close>.
\<close>

theorem signIn_appkit_token:
  assumes "isMiniapp w \<longrightarrow> isl (snd (miniapp_auth w s'))"
    and "snd (connect_wallet w s'') = Inr currentAddress"
    and "signMessageAsync w (sign_in_message w) = Inr signature"
    and "fetch_appkit w (auth_url w) (appkit_body currentAddress (sign_in_message w) signature) = Inr response"
    and "ok response" and "json response = Inr data" and "data \<noteq> JNull" and "data \<noteq> JUndefined"
  shows "snd (signIn w s) = Inr () \<and>
         token (authState (fst (signIn w s))) =
           (if truthy (lookup_prop data ''token'') then lookup_prop data ''token'' else JStr signature) \<and>
         (map_of (own_props data) ''token'' = None \<longrightarrow>
            token (authState (fst (signIn w s))) = JStr signature) \<and>
         (map_of (own_props data) ''token'' = Some (JStr t) \<and> t \<noteq> [] \<longrightarrow>
            token (authState (fst (signIn w s))) = JStr t) \<and>
         updates (performed s (fst (signIn w s))) =
           [(authState s)\<lparr>isLoading := True\<rparr>,
            \<lparr>token = (if truthy (lookup_prop data ''token'') then lookup_prop data ''token''
                      else JStr signature),
             userData = JObj (spread [(''address'', currentAddress)] data),
             isLoading = False\<rparr>]"
proof -
  from signIn_appkit_result [OF assms, of s]
  have r: "snd (signIn w s) = Inr ()"
    and st: "authState (fst (signIn w s)) =
           \<lparr>token = (if truthy (lookup_prop data ''token'') then lookup_prop data ''token''
                     else JStr signature),
            userData = JObj (spread [(''address'', currentAddress)] data),
            isLoading = False\<rparr>"
    by simp_all
  from st have "map_of (own_props data) ''token'' = None \<longrightarrow>
      token (authState (fst (signIn w s))) = JStr signature"
    and "map_of (own_props data) ''token'' = Some (JStr t) \<and> t \<noteq> [] \<longrightarrow>
      token (authState (fst (signIn w s))) = JStr t"
    by (simp_all add: lookup_prop_def)
  with r st signIn_updates [of s w] show ?thesis by simp
qed

theorem signIn_appkit_token_witness:
  "snd (signIn world_fallback sys_initial) = Inr () \<and>
   token (authState (fst (signIn world_fallback sys_initial))) = JStr ''sig2'' \<and>
   snd (signIn world_backend_identity sys_initial) = Inr () \<and>
   token (authState (fst (signIn world_backend_identity sys_initial))) = JStr ''jwt1'' \<and>
   updates (performed sys_initial (fst (signIn world_backend_identity sys_initial))) =
     [\<lparr>token = JNull, userData = JNull, isLoading = True\<rparr>,
      \<lparr>token = JStr ''jwt1'',
       userData = JObj [(''address'', JStr ''0xDDD''), (''token'', JStr ''jwt1'')],
       isLoading = False\<rparr>]"
proof -
  have m: "isl (snd (miniapp_auth world_fallback sys_initial))"
    by (rule miniapp_auth_fails [where e = "Thrown (JStr ''rejected'')"]) (simp add: world_defs)
  have c1: "snd (connect_wallet world_fallback sys_initial) = Inr (JStr ''0xBBB'')"
    by (simp add: connect_wallet_connected latest_address_def world_defs)
  have c2: "snd (connect_wallet world_backend_identity sys_initial) = Inr (JStr ''0xBBB'')"
    by (simp add: connect_wallet_connected latest_address_def world_defs)
  show ?thesis
    using signIn_appkit_token [where w = world_fallback and s = sys_initial and s' = sys_initial
        and s'' = sys_initial and currentAddress = "JStr ''0xBBB''" and signature = "''sig2''"
        and response = "ok_response (JObj [])" and data = "JObj []" and t = "''x''"]
      signIn_appkit_token [where w = world_backend_identity and s = sys_initial and s' = sys_initial
        and s'' = sys_initial and currentAddress = "JStr ''0xBBB''" and signature = "''sig3''"
        and response = "ok_response (JObj [(''token'', JStr ''jwt1''), (''address'', JStr ''0xDDD'')])"
        and data = "JObj [(''token'', JStr ''jwt1''), (''address'', JStr ''0xDDD'')]" and t = "''jwt1''"]
      m c1 c2
    by (simp add: world_defs lookup_prop_def spread_def initialAuthState_def)
qed

text \<open>
  C9, as claimed, fails in the AppKit path: with the wallet \<open>0xBBB\<close> connected and a backend
  that answers \<open>{token: "jwt1", address: "0xDDD"}\<close>, the stored address is \<open>0xDDD\<close>.
\<close>

theorem signIn_backend_address_counterexample:
  "isConnected world_backend_identity \<and>
   latest_address world_backend_identity 0 = JStr ''0xBBB'' \<and>
   snd (signIn world_backend_identity sys_initial) = Inr () \<and>
   lookup_prop (userData (authState (fst (signIn world_backend_identity sys_initial)))) ''address''
     = JStr ''0xDDD'' \<and>
   lookup_prop (userData (authState (fst (signIn world_backend_identity sys_initial)))) ''address''
     \<noteq> latest_address world_backend_identity 0"
  by (simp add: world_defs signIn_def signIn_catch_def signIn_body_def appkit_auth_def
      connect_wallet_def appkit_body_def appkit_state_def sign_in_message_def auth_url_def
      backendOrigin_def latest_address_def lookup_prop_def spread_def emit_def setAuthState_def
      Let_def)

text \<open>
  C9, amended. In the miniapp path the backend's \<open>address\<close> is a fallback: the stored address
  is the wallet address obtained from the host when there is one, and \<open>data.address\<close> only
  otherwise. In the AppKit path the fields of the response are written over
  \<open>{address: currentAddress}\<close>: the stored address is the response's \<open>address\<close> field
  whenever the response has one, and the connected wallet's address only when it has none.
\<close>

theorem signIn_address_source:
  assumes "ok response" and "json response = Inr data" and "data \<noteq> JNull" and "data \<noteq> JUndefined"
  shows "(isMiniapp w \<and> sdk_signIn w (generateNonce w) = Inr (message, signature) \<and>
          fetch_miniapp w (auth_url w)
            (miniapp_body message signature (walletAddress_of (eth_requestAccounts w))) = Inr response \<longrightarrow>
            lookup_prop (userData (authState (fst (signIn w s)))) ''address'' =
              (if truthy (walletAddress_of (eth_requestAccounts w))
               then walletAddress_of (eth_requestAccounts w)
               else lookup_prop data ''address'')) \<and>
         ((isMiniapp w \<longrightarrow> isl (snd (miniapp_auth w s'))) \<and>
          snd (connect_wallet w s'') = Inr currentAddress \<and>
          signMessageAsync w (sign_in_message w) = Inr signature \<and>
          fetch_appkit w (auth_url w) (appkit_body currentAddress (sign_in_message w) signature) = Inr response \<and>
          distinct (map fst (own_props data)) \<longrightarrow>
            lookup_prop (userData (authState (fst (signIn w s)))) ''address'' =
              (case map_of (own_props data) ''address'' of
                 Some a \<Rightarrow> a
               | None \<Rightarrow> currentAddress))"
proof (intro conjI impI)
  assume "isMiniapp w \<and> sdk_signIn w (generateNonce w) = Inr (message, signature) \<and>
          fetch_miniapp w (auth_url w)
            (miniapp_body message signature (walletAddress_of (eth_requestAccounts w))) = Inr response"
  then have "isMiniapp w" "sdk_signIn w (generateNonce w) = Inr (message, signature)"
    "fetch_miniapp w (auth_url w)
       (miniapp_body message signature (walletAddress_of (eth_requestAccounts w))) = Inr response"
    by simp_all
  from signIn_miniapp_result [OF this assms, of s]
  show "lookup_prop (userData (authState (fst (signIn w s)))) ''address'' =
          (if truthy (walletAddress_of (eth_requestAccounts w))
           then walletAddress_of (eth_requestAccounts w)
           else lookup_prop data ''address'')"
    by (simp add: lookup_prop_def)
next
  assume h: "(isMiniapp w \<longrightarrow> isl (snd (miniapp_auth w s'))) \<and>
          snd (connect_wallet w s'') = Inr currentAddress \<and>
          signMessageAsync w (sign_in_message w) = Inr signature \<and>
          fetch_appkit w (auth_url w) (appkit_body currentAddress (sign_in_message w) signature) = Inr response \<and>
          distinct (map fst (own_props data))"
  then have "isMiniapp w \<longrightarrow> isl (snd (miniapp_auth w s'))"
    "snd (connect_wallet w s'') = Inr currentAddress"
    "signMessageAsync w (sign_in_message w) = Inr signature"
    "fetch_appkit w (auth_url w) (appkit_body currentAddress (sign_in_message w) signature) = Inr response"
    by simp_all
  from signIn_appkit_result [OF this assms, of s]
  have "userData (authState (fst (signIn w s))) = JObj (spread [(''address'', currentAddress)] data)"
    by simp
  moreover from h have "distinct (map fst (own_props data))" by simp
  then have "lookup_prop (JObj (spread [(''address'', currentAddress)] data)) ''address'' =
      (case map_of (own_props data) ''address'' of
         Some a \<Rightarrow> a
       | None \<Rightarrow> lookup_prop (JObj [(''address'', currentAddress)]) ''address'')"
    by (rule lookup_spread)
  moreover have "lookup_prop (JObj [(''address'', currentAddress)]) ''address'' = currentAddress"
    by (simp add: lookup_prop_def)
  ultimately show "lookup_prop (userData (authState (fst (signIn w s)))) ''address'' =
      (case map_of (own_props data) ''address'' of Some a \<Rightarrow> a | None \<Rightarrow> currentAddress)"
    by (simp split: option.splits)
qed

theorem signIn_address_source_witness:
  "lookup_prop (userData (authState (fst (signIn world_embedded sys_initial)))) ''address'' = JStr ''0xAAA'' \<and>
   lookup_prop (userData (authState (fst (signIn world_fallback sys_initial)))) ''address'' = JStr ''0xBBB'' \<and>
   lookup_prop (userData (authState (fst (signIn world_backend_identity sys_signed_in)))) ''address'' = JStr ''0xDDD''"
proof -
  have m: "isl (snd (miniapp_auth world_fallback sys_initial))"
    by (rule miniapp_auth_fails [where e = "Thrown (JStr ''rejected'')"]) (simp add: world_defs)
  have c1: "snd (connect_wallet world_fallback sys_initial) = Inr (JStr ''0xBBB'')"
    by (simp add: connect_wallet_connected latest_address_def world_defs)
  have c2: "snd (connect_wallet world_backend_identity sys_initial) = Inr (JStr ''0xBBB'')"
    by (simp add: connect_wallet_connected latest_address_def world_defs)
  show ?thesis
    using signIn_address_source [where w = world_embedded and s = sys_initial
        and message = "''m''" and signature = "''sig1''"
        and response = "ok_response (JObj [(''fid'', JNum 42)])" and data = "JObj [(''fid'', JNum 42)]"]
      signIn_address_source [where w = world_fallback and s = sys_initial and s' = sys_initial
        and s'' = sys_initial and currentAddress = "JStr ''0xBBB''" and signature = "''sig2''"
        and response = "ok_response (JObj [])" and data = "JObj []"]
      signIn_address_source [where w = world_backend_identity and s = sys_signed_in and s' = sys_initial
        and s'' = sys_initial and currentAddress = "JStr ''0xBBB''" and signature = "''sig3''"
        and response = "ok_response (JObj [(''token'', JStr ''jwt1''), (''address'', JStr ''0xDDD'')])"
        and data = "JObj [(''token'', JStr ''jwt1''), (''address'', JStr ''0xDDD'')]"]
      m c1 c2
    by (simp add: world_defs walletAddress_of_def)
qed

text \<open>
  C10. When \<open>signIn\<close> throws, \<open>token\<close> and \<open>userData\<close> are what they were before the
  invocation and \<open>isLoading\<close> is false; the only state updates of the invocation are the two
  that set and reset \<open>isLoading\<close>. A session held before a failed attempt is kept.
\<close>

theorem signIn_error_frame:
  assumes "snd (signIn w s) = Inl e"
  shows "token (authState (fst (signIn w s))) = token (authState s) \<and>
         userData (authState (fst (signIn w s))) = userData (authState s) \<and>
         isLoading (authState (fst (signIn w s))) = False \<and>
         updates (performed s (fst (signIn w s))) =
           [(authState s)\<lparr>isLoading := True\<rparr>, (authState s)\<lparr>isLoading := False\<rparr>]"
  using signIn_failed(1) [OF assms] signIn_updates [of s w] by simp

theorem signIn_error_frame_witness:
  "snd (signIn world_never_connects sys_signed_in) = Inl (Error connection_failed) \<and>
   token (authState (fst (signIn world_never_connects sys_signed_in))) = JStr ''sig0'' \<and>
   userData (authState (fst (signIn world_never_connects sys_signed_in))) = JObj [(''fid'', JNum 7)] \<and>
   isLoading (authState (fst (signIn world_never_connects sys_signed_in))) = False"
proof -
  have "appKit_open world_never_connects" "\<not> truthy (latest_address world_never_connects 0)"
    "\<forall>k. 1 \<le> k \<and> k \<le> 100 \<longrightarrow> \<not> truthy (latest_address world_never_connects k)"
    by (simp_all add: world_defs latest_address_def)
  from connect_wallet_absent [OF this, of "loading sys_signed_in"]
  have "snd (appkit_auth world_never_connects (loading sys_signed_in)) = Inl (Error connection_failed)"
    by (auto simp: appkit_auth_no_address)
  moreover have "\<not> isMiniapp world_never_connects" by (simp add: world_defs)
  ultimately have thrown: "snd (signIn world_never_connects sys_signed_in) = Inl (Error connection_failed)"
    by (simp add: signIn_loading signIn_body_browser)
  from signIn_error_frame [OF thrown] thrown show ?thesis
    by (simp add: world_defs)
qed

end
